theory Spec2Isabelle
  imports Complex_Main "HOL-Library.Monad_Syntax"
begin

section \<open>Numbers\<close>

text \<open>
  JavaScript numbers are IEEE doubles. They are idealised here as the reals: rounding and
  overflow are not modelled. A real has no NaN and no Infinity, and HOL's \<open>x / 0\<close> is \<open>0\<close>,
  so a division whose divisor is a computed value is written as the partial operation
  \<open>divide_js\<close>: \<open>None\<close> stands for the non-finite value (Infinity or NaN) the program would
  go on computing with. \<open>None\<close> is also the value of a frame that stops with a TypeError
  (a property read on \<open>undefined\<close>, the result of an array read out of range).
\<close>

definition divide_js :: "real \<Rightarrow> real \<Rightarrow> real option" where
  "divide_js a b = (if b = 0 then None else Some (a / b))"

text \<open>
  Where the last digit of a double decides what the program does or what a statement
  says, the operation is rounded: the product \<open>dt * 1000\<close> of the clock, and every
  operation of the collision update in \<open>collide_fl\<close>. \<open>fl x\<close> is the double nearest to
  \<open>x\<close>, ties to the even significand (53 bits). The range of the exponent is not bounded:
  \<open>fl\<close> is the rounding of IEEE 754 for results whose magnitude is between \<open>2^-1022\<close> and
  \<open>2^1024\<close>; overflow to Infinity and subnormal numbers are not modelled.
\<close>

definition round_even :: "real \<Rightarrow> int" where
  "round_even y =
     (let f = \<lfloor>y\<rfloor>; r = y - of_int f
      in if r < 1 / 2 then f else if 1 / 2 < r then f + 1 else if even f then f else f + 1)"

definition fl :: "real \<Rightarrow> real" where
  "fl x =
     (if x = 0 then 0
      else let ulp = 2 powr (of_int \<lfloor>log 2 \<bar>x\<bar>\<rfloor> - 52)
           in of_int (round_even (x / ulp)) * ulp)"

text \<open>\<open>Math.round\<close> rounds halves up.\<close>

definition round_js :: "real \<Rightarrow> int" where
  "round_js a = \<lfloor>a + 1 / 2\<rfloor>"

text \<open>The operator \<open>%\<close> on numbers: the remainder has the sign of the dividend.\<close>

definition trunc_js :: "real \<Rightarrow> int" where
  "trunc_js a = (if 0 \<le> a then \<lfloor>a\<rfloor> else \<lceil>a\<rceil>)"

definition rem_js :: "real \<Rightarrow> real \<Rightarrow> real" where
  "rem_js a b = a - b * of_int (trunc_js (a / b))"

definition lookup :: "'a list \<Rightarrow> nat \<Rightarrow> 'a option" where
  "lookup xs i = (if i < length xs then Some (xs ! i) else None)"

section \<open>The vector and matrix primitives of three.js used by the program\<close>

text \<open>
  \<open>THREE.Vector3\<close> and \<open>THREE.Matrix4\<close> belong to the library the program is written
  against. The operations below are the ones PoolSimulation.js calls, with the library's
  meaning. The fields \<open>x\<close>, \<open>y\<close>, \<open>z\<close> are named \<open>vx\<close>, \<open>vy\<close>, \<open>vz\<close>.
\<close>

record Vector3 =
  vx :: real
  vy :: real
  vz :: real

definition addVectors :: "Vector3 \<Rightarrow> Vector3 \<Rightarrow> Vector3" where
  "addVectors a b = \<lparr>vx = vx a + vx b, vy = vy a + vy b, vz = vz a + vz b\<rparr>"

definition subVectors :: "Vector3 \<Rightarrow> Vector3 \<Rightarrow> Vector3" where
  "subVectors a b = \<lparr>vx = vx a - vx b, vy = vy a - vy b, vz = vz a - vz b\<rparr>"

definition multiplyScalar :: "Vector3 \<Rightarrow> real \<Rightarrow> Vector3" where
  "multiplyScalar v s = \<lparr>vx = vx v * s, vy = vy v * s, vz = vz v * s\<rparr>"

definition dot :: "Vector3 \<Rightarrow> Vector3 \<Rightarrow> real" where
  "dot a b = vx a * vx b + vy a * vy b + vz a * vz b"

definition cross :: "Vector3 \<Rightarrow> Vector3 \<Rightarrow> Vector3" where
  "cross a b = \<lparr>vx = vy a * vz b - vz a * vy b,
                vy = vz a * vx b - vx a * vz b,
                vz = vx a * vy b - vy a * vx b\<rparr>"

definition length3 :: "Vector3 \<Rightarrow> real" where
  "length3 v = sqrt (vx v * vx v + vy v * vy v + vz v * vz v)"

definition distanceTo :: "Vector3 \<Rightarrow> Vector3 \<Rightarrow> real" where
  "distanceTo a b =
     (let dx = vx a - vx b; dy = vy a - vy b; dz = vz a - vz b
      in sqrt (dx * dx + dy * dy + dz * dz))"

text \<open>\<open>divideScalar(s)\<close> is \<open>multiplyScalar(1 / s)\<close>.\<close>

definition divideScalar :: "Vector3 \<Rightarrow> real \<Rightarrow> Vector3 option" where
  "divideScalar v s = do { r \<leftarrow> divide_js 1 s; Some (multiplyScalar v r) }"

text \<open>
  \<open>normalize()\<close> is \<open>divideScalar(length() || 1)\<close>: a zero length is replaced by 1, so
  the zero vector is returned as it is.
\<close>

definition normalize3 :: "Vector3 \<Rightarrow> Vector3 option" where
  "normalize3 v = divideScalar v (if length3 v = 0 then 1 else length3 v)"

text \<open>
  A \<open>Matrix4\<close>, with its sixteen entries named as the arguments of \<open>Matrix4.set\<close>
  (row, then column). The last column of the first three rows is the translation.
\<close>

record Matrix4 =
  n11 :: real  n12 :: real  n13 :: real  n14 :: real
  n21 :: real  n22 :: real  n23 :: real  n24 :: real
  n31 :: real  n32 :: real  n33 :: real  n34 :: real
  n41 :: real  n42 :: real  n43 :: real  n44 :: real

definition setPosition :: "Matrix4 \<Rightarrow> Vector3 \<Rightarrow> Matrix4" where
  "setPosition m v = m\<lparr>n14 := vx v, n24 := vy v, n34 := vz v\<rparr>"

definition makeRotationAxis :: "Vector3 \<Rightarrow> real \<Rightarrow> Matrix4" where
  "makeRotationAxis axis angle =
     (let c = cos angle; s = sin angle; t = 1 - c;
          x = vx axis; y = vy axis; z = vz axis;
          tx = t * x; ty = t * y
      in \<lparr>n11 = tx * x + c,     n12 = tx * y - s * z, n13 = tx * z + s * y, n14 = 0,
          n21 = tx * y + s * z, n22 = ty * y + c,     n23 = ty * z - s * x, n24 = 0,
          n31 = tx * z - s * y, n32 = ty * z + s * x, n33 = t * z * z + c,  n34 = 0,
          n41 = 0, n42 = 0, n43 = 0, n44 = 1\<rparr>)"

text \<open>\<open>a.multiply(b)\<close> stores the product \<open>a b\<close> in \<open>a\<close>.\<close>

definition multiply :: "Matrix4 \<Rightarrow> Matrix4 \<Rightarrow> Matrix4" where
  "multiply a b =
     \<lparr>n11 = n11 a * n11 b + n12 a * n21 b + n13 a * n31 b + n14 a * n41 b,
      n12 = n11 a * n12 b + n12 a * n22 b + n13 a * n32 b + n14 a * n42 b,
      n13 = n11 a * n13 b + n12 a * n23 b + n13 a * n33 b + n14 a * n43 b,
      n14 = n11 a * n14 b + n12 a * n24 b + n13 a * n34 b + n14 a * n44 b,
      n21 = n21 a * n11 b + n22 a * n21 b + n23 a * n31 b + n24 a * n41 b,
      n22 = n21 a * n12 b + n22 a * n22 b + n23 a * n32 b + n24 a * n42 b,
      n23 = n21 a * n13 b + n22 a * n23 b + n23 a * n33 b + n24 a * n43 b,
      n24 = n21 a * n14 b + n22 a * n24 b + n23 a * n34 b + n24 a * n44 b,
      n31 = n31 a * n11 b + n32 a * n21 b + n33 a * n31 b + n34 a * n41 b,
      n32 = n31 a * n12 b + n32 a * n22 b + n33 a * n32 b + n34 a * n42 b,
      n33 = n31 a * n13 b + n32 a * n23 b + n33 a * n33 b + n34 a * n43 b,
      n34 = n31 a * n14 b + n32 a * n24 b + n33 a * n34 b + n34 a * n44 b,
      n41 = n41 a * n11 b + n42 a * n21 b + n43 a * n31 b + n44 a * n41 b,
      n42 = n41 a * n12 b + n42 a * n22 b + n43 a * n32 b + n44 a * n42 b,
      n43 = n41 a * n13 b + n42 a * n23 b + n43 a * n33 b + n44 a * n43 b,
      n44 = n41 a * n14 b + n42 a * n24 b + n43 a * n34 b + n44 a * n44 b\<rparr>"

section \<open>The state of PoolSimulation.js\<close>

record settings =
  lightHeight :: real
  lampRadius :: real
  ceilingWidth :: real
  ceilingHeight :: real
  floorWidth :: real
  floorHeight :: real
  tableSize :: real
  legLength :: real
  legSize :: real
  tableWidth :: real
  cushionSize :: real
  cushionWidth :: real
  nrOfBalls :: nat
  ballRadius :: real
  massOfSphere :: real

definition defaultSettings :: settings where
  "defaultSettings =
     \<lparr>lightHeight = 7.5, lampRadius = 0.5, ceilingWidth = 20, ceilingHeight = 20,
      floorWidth = 10, floorHeight = 10, tableSize = 10, legLength = 3.5, legSize = 0.25,
      tableWidth = 0.5, cushionSize = 0.25, cushionWidth = 0.25 + 0.45, nrOfBalls = 8,
      ballRadius = 0.20, massOfSphere = 1\<rparr>"

definition rollFric :: real where
  "rollFric = 0.8"

definition colliFric :: real where
  "colliFric = 0.7"

text \<open>A ball mesh: of a \<open>THREE.Mesh\<close> the program reads and writes \<open>position\<close> and \<open>matrix\<close>.\<close>

record Mesh =
  position :: Vector3
  matrix :: Matrix4

text \<open>
  What the program does to the balls is recorded in a trace, which the program itself does
  not have and which no operation reads: \<open>Collision ID i\<close> when the velocity update of
  \<open>collisionVel\<close> (lines 300 to 329) is applied to balls \<open>ID\<close> and \<open>i\<close>, \<open>Friction i\<close> when the
  once-per-second decay (line 277) is applied to ball \<open>i\<close>.
\<close>

datatype event = Collision nat nat | Friction nat

text \<open>
  \<open>balls\<close> is \<open>table.children\<close> from index 8 on (the first eight children are the cushions
  and the legs), so \<open>table.children[i+8]\<close> is \<open>balls ! i\<close> and \<open>table.children.length-8\<close> is
  \<open>length balls\<close>. \<open>velocity\<close> is the global array of that name.
\<close>

record state =
  balls :: "Mesh list"
  velocity :: "Vector3 list"
  currentTime :: int
  currentSecond :: int
  previousSec :: int
  trace :: "event list"

text \<open>The state \<open>createBilliardBalls\<close> leaves: one mesh and one velocity for each ball.\<close>

definition wellFormed :: "state \<Rightarrow> bool" where
  "wellFormed st \<longleftrightarrow> length (balls st) = nrOfBalls defaultSettings
           \<and> length (velocity st) = nrOfBalls defaultSettings"

text \<open>
  How often the trace says that the velocity update has been applied to the ordered pair
  \<open>(ID, i)\<close>, and the once-per-second decay to ball \<open>i\<close>.
\<close>

definition resolutions :: "nat \<Rightarrow> nat \<Rightarrow> state \<Rightarrow> nat" where
  "resolutions ID i st = count_list (trace st) (Collision ID i)"

definition decays :: "nat \<Rightarrow> state \<Rightarrow> nat" where
  "decays i st = count_list (trace st) (Friction i)"

text \<open>
  The resting plane: \<open>getBallPosition\<close> puts every ball at \<open>z = tableWidth - 0.05\<close> (line
  202) and \<open>getBallVelocity\<close> gives every velocity a zero \<open>z\<close> (line 210).
\<close>

definition onPlane :: "state \<Rightarrow> bool" where
  "onPlane st \<longleftrightarrow>
     (\<forall>b \<in> set (balls st). vz (position b) = tableWidth defaultSettings - 0.05)
     \<and> (\<forall>v \<in> set (velocity st). vz v = 0)"

section \<open>collisionVel\<close>

text \<open>The body of the loop of \<open>collisionVel(ball, ID)\<close> for one index \<open>i\<close> (lines 298 to 330).\<close>

definition collide :: "nat \<Rightarrow> nat \<Rightarrow> state \<Rightarrow> state option" where
  "collide ID i st =
     (if i = ID then Some st
      else do {
        A \<leftarrow> lookup (balls st) ID;
        B \<leftarrow> lookup (balls st) i;
        if distanceTo (position A) (position B) < ballRadius defaultSettings * 2 then do {
          n \<leftarrow> normalize3 (subVectors (position B) (position A));
          v1 \<leftarrow> lookup (velocity st) ID;
          v2 \<leftarrow> lookup (velocity st) i;
          let a1 = dot v1 n;
          let a2 = dot v2 n;
          optimizedP \<leftarrow> divide_js (2.0 * (a1 - a2))
                          (massOfSphere defaultSettings + massOfSphere defaultSettings);
          let scalarN = multiplyScalar n (optimizedP * massOfSphere defaultSettings);
          let viPrime = subVectors v1 scalarN;
          let vdPrime = addVectors v2 scalarN;
          Some (st\<lparr>velocity := (velocity st)[ID := viPrime, i := vdPrime],
                   trace := trace st @ [Collision ID i]\<rparr>)
        } else Some st
      })"

fun collisionVel_loop :: "nat \<Rightarrow> nat list \<Rightarrow> state \<Rightarrow> state option" where
  "collisionVel_loop ID [] st = Some st"
| "collisionVel_loop ID (i # is) st = collide ID i st \<bind> collisionVel_loop ID is"

definition collisionVel :: "nat \<Rightarrow> state \<Rightarrow> state option" where
  "collisionVel ID st = collisionVel_loop ID [0..<length (balls st)] st"

section \<open>render\<close>

text \<open>
  Lines 228 and 229: the clock of the simulation, in milliseconds. \<open>Math.round\<close> is
  applied to the product \<open>dt * 1000\<close> as the program has it, a double.
\<close>

definition tick :: "real \<Rightarrow> state \<Rightarrow> state" where
  "tick dt st =
     (let t = currentTime st + round_js (fl (dt * 1000))
      in st\<lparr>currentTime := t, currentSecond := \<lfloor>rem_js (of_int t / 1000) 60\<rfloor>\<rparr>)"

text \<open>
  Lines 240 to 253 (and again 347 to 361): the axis and speed of the rotation, the
  translation, and the rotation of the mesh's matrix.
\<close>

definition integrate :: "real \<Rightarrow> nat \<Rightarrow> state \<Rightarrow> state option" where
  "integrate dt i st = do {
     v \<leftarrow> lookup (velocity st) i;
     rotationAxis \<leftarrow> normalize3 (cross \<lparr>vx = 0, vy = 0, vz = 1\<rparr> v);
     omega \<leftarrow> divide_js (length3 v) (ballRadius defaultSettings);
     ball \<leftarrow> lookup (balls st) i;
     let pos = addVectors (position ball) (multiplyScalar v dt);
     let changedRotation = makeRotationAxis rotationAxis (omega * dt);
     Some (st\<lparr>balls := (balls st)[i :=
             \<lparr>position = pos, matrix = multiply (setPosition (matrix ball) pos) changedRotation\<rparr>]\<rparr>)
   }"

text \<open>An assignment to, or a method that changes, \<open>velocity[i]\<close> in place.\<close>

definition onVelocity :: "nat \<Rightarrow> (Vector3 \<Rightarrow> Vector3) \<Rightarrow> state \<Rightarrow> state option" where
  "onVelocity i f st = do {
     v \<leftarrow> lookup (velocity st) i;
     Some (st\<lparr>velocity := (velocity st)[i := f v]\<rparr>)
   }"

text \<open>Lines 256 to 272: the cushions.\<close>

definition boundary :: "nat \<Rightarrow> state \<Rightarrow> state option" where
  "boundary i st = do {
     ball \<leftarrow> lookup (balls st) i;
     st1 \<leftarrow>
       (if vx (position ball) > tableSize defaultSettings / 2 - ballRadius defaultSettings
        then onVelocity i (\<lambda>v. multiplyScalar (v\<lparr>vx := - \<bar>vx v\<bar>\<rparr>) rollFric) st
        else if vx (position ball) < - (tableSize defaultSettings / 2 - ballRadius defaultSettings)
        then onVelocity i (\<lambda>v. multiplyScalar (v\<lparr>vx := \<bar>vx v\<bar>\<rparr>) rollFric) st
        else Some st);
     if vy (position ball) > tableSize defaultSettings / 4 - ballRadius defaultSettings
     then onVelocity i (\<lambda>v. multiplyScalar (v\<lparr>vy := - \<bar>vy v\<bar>\<rparr>) rollFric) st1
     else if vy (position ball) < - (tableSize defaultSettings / 4 - ballRadius defaultSettings)
     then onVelocity i (\<lambda>v. multiplyScalar (v\<lparr>vy := \<bar>vy v\<bar>\<rparr>) rollFric) st1
     else Some st1
   }"

text \<open>
  Lines 275 to 286. The check stands inside the loop over the balls, so it runs after each
  ball; the inner loop computes \<open>omega\<close> and a rotation axis that nothing reads.
\<close>

fun friction_loop :: "nat list \<Rightarrow> state \<Rightarrow> state option" where
  "friction_loop [] st = Some st"
| "friction_loop (i # is) st = do {
     st1 \<leftarrow> onVelocity i (\<lambda>v. multiplyScalar v rollFric) st;
     v \<leftarrow> lookup (velocity st1) i;
     omega \<leftarrow> divide_js (length3 v) (ballRadius defaultSettings);
     rotationAxis \<leftarrow> normalize3 (cross \<lparr>vx = 0, vy = 0, vz = 1\<rparr> v);
     friction_loop is (st1\<lparr>trace := trace st1 @ [Friction i]\<rparr>)
   }"

definition secondCheck :: "state \<Rightarrow> state option" where
  "secondCheck st =
     (if currentSecond st \<noteq> previousSec st then do {
        st1 \<leftarrow> friction_loop [0..<nrOfBalls defaultSettings] st;
        Some (st1\<lparr>previousSec := currentSecond st1\<rparr>)
      } else Some st)"

text \<open>The body of the loop of \<open>render\<close> after the test of \<open>dt\<close> (lines 235 to 286).\<close>

definition ballStep :: "real \<Rightarrow> nat \<Rightarrow> state \<Rightarrow> state option" where
  "ballStep dt i st = do {
     st1 \<leftarrow> collisionVel i st;
     st2 \<leftarrow> integrate dt i st1;
     st3 \<leftarrow> boundary i st2;
     secondCheck st3
   }"

fun render_loop :: "real \<Rightarrow> nat list \<Rightarrow> state \<Rightarrow> state option" where
  "render_loop dt [] st = Some st"
| "render_loop dt (i # is) st =
     (if dt > 0.15 then Some st else ballStep dt i st \<bind> render_loop dt is)"

text \<open>One frame: \<open>render\<close>, with the value \<open>dt\<close> that \<open>clock.getDelta()\<close> returns.\<close>

definition render :: "real \<Rightarrow> state \<Rightarrow> state option" where
  "render dt st = render_loop dt [0..<nrOfBalls defaultSettings] (tick dt st)"

section \<open>eventHandler\<close>

text \<open>
  The key S (code 83). \<open>clock.getDelta()\<close> is called once for each ball: \<open>getDelta i\<close> is
  the value it returns for ball \<open>i\<close>. The key R (code 82) moves the camera only.
\<close>

fun boost_loop :: "(nat \<Rightarrow> real) \<Rightarrow> nat list \<Rightarrow> state \<Rightarrow> state option" where
  "boost_loop getDelta [] st = Some st"
| "boost_loop getDelta (i # is) st = do {
     st1 \<leftarrow> onVelocity i (\<lambda>v. multiplyScalar v (colliFric + colliFric)) st;
     st2 \<leftarrow> integrate (getDelta i) i st1;
     boost_loop getDelta is st2
   }"

definition eventHandler :: "nat \<Rightarrow> (nat \<Rightarrow> real) \<Rightarrow> state \<Rightarrow> state option" where
  "eventHandler keyCode getDelta st =
     (if keyCode = 82 then Some st
      else if keyCode = 83 then boost_loop getDelta [0..<nrOfBalls defaultSettings] st
      else Some st)"

section \<open>Runs\<close>

text \<open>
  What happens to the simulation after its start: a frame is drawn (\<open>render\<close>, with the
  \<open>dt\<close> of that frame), or a key goes down (\<open>eventHandler\<close>, with the key's code and the
  values \<open>clock.getDelta()\<close> returns during the handler).
\<close>

datatype input = Frame real | KeyDown nat "nat \<Rightarrow> real"

fun handle :: "input \<Rightarrow> state \<Rightarrow> state option" where
  "handle (Frame dt) st = render dt st"
| "handle (KeyDown keyCode getDelta) st = eventHandler keyCode getDelta st"

fun run :: "input list \<Rightarrow> state \<Rightarrow> state option" where
  "run [] st = Some st"
| "run (x # xs) st = handle x st \<bind> run xs"

section \<open>Concrete tables\<close>

text \<open>
  Eight balls on the resting plane of \<open>getBallPosition\<close> (\<open>z = tableWidth - 0.05\<close>), all
  inside the cushions. Balls 0 and 1 overlap (their centres are 0.3 apart, less than two
  radii) and move towards each other along the line of centres; the other six are at rest
  and far from every other ball. A new mesh has the identity as its matrix.
\<close>

definition identity4 :: Matrix4 where
  "identity4 = \<lparr>n11 = 1, n12 = 0, n13 = 0, n14 = 0,
                 n21 = 0, n22 = 1, n23 = 0, n24 = 0,
                 n31 = 0, n32 = 0, n33 = 1, n34 = 0,
                 n41 = 0, n42 = 0, n43 = 0, n44 = 1\<rparr>"

definition ballAt :: "real \<Rightarrow> real \<Rightarrow> Mesh" where
  "ballAt a b =
     \<lparr>position = \<lparr>vx = a, vy = b, vz = tableWidth defaultSettings - 0.05\<rparr>,
      matrix = identity4\<rparr>"

definition planar :: "real \<Rightarrow> real \<Rightarrow> Vector3" where
  "planar a b = \<lparr>vx = a, vy = b, vz = 0\<rparr>"

definition sampleState :: state where
  "sampleState =
     \<lparr>balls = [ballAt 0 0, ballAt 0.3 0, ballAt (-3) (-1), ballAt (-2) (-1),
               ballAt (-1) (-1), ballAt 1 1, ballAt 2 1, ballAt 3 1],
      velocity = [planar 1 0, planar (-1) 0, planar 0 0, planar 0 0,
                  planar 0 0, planar 0 0, planar 0 0, planar 0 0],
      currentTime = 1000000, currentSecond = 40, previousSec = 40, trace = []\<rparr>"

text \<open>What a renderer reads of ball \<open>i\<close>: the position of its mesh.\<close>

definition ballPosition :: "nat \<Rightarrow> state \<Rightarrow> Vector3 option" where
  "ballPosition i st = map_option position (lookup (balls st) i)"

text \<open>
  Eight balls inside the cushions, seven at rest; ball 7 is 0.1 from the cushion at
  \<open>x = 4.8\<close> and moves towards it at speed 2.
\<close>

definition cushionState :: state where
  "cushionState =
     \<lparr>balls = [ballAt (-3) (-1), ballAt (-2) (-1), ballAt (-1) (-1), ballAt 0 0,
               ballAt 1 1, ballAt 2 1, ballAt 3 1, ballAt 4.7 0],
      velocity = [planar 0 0, planar 0 0, planar 0 0, planar 0 0,
                  planar 0 0, planar 0 0, planar 0 0, planar 2 0],
      currentTime = 1000000, currentSecond = 40, previousSec = 40, trace = []\<rparr>"

text \<open>The same table after ball 7 has run past both cushions of a corner.\<close>

definition cornerState :: state where
  "cornerState =
     cushionState\<lparr>balls := (balls cushionState)[7 := ballAt 4.9 2.4],
                  velocity := (velocity cushionState)[7 := planar 2 1]\<rparr>"

text \<open>The table of \<open>sampleState\<close> with ball 1 moved onto the centre of ball 0.\<close>

definition coincidentState :: state where
  "coincidentState = sampleState\<lparr>balls := (balls sampleState)[1 := ballAt 0 0]\<rparr>"

text \<open>
  Sixteen frames whose \<open>dt\<close> are doubles and sum to exactly 2.0: fifteen of 273/2048
  seconds and one of 1/2048.
\<close>

definition twoSeconds :: "real list" where
  "twoSeconds = replicate 15 (273 / 2048) @ [1 / 2048]"

section \<open>collisionVel in double arithmetic\<close>

text \<open>
  The two velocities that \<open>collisionVel\<close> writes are the results of some forty
  floating-point operations, so whether they are exactly the numbers of the real formula
  is a question about the last digit. \<open>collide_fl\<close> is \<open>collide\<close> with each operation
  rounded to a double by \<open>fl\<close>, in the order in which three.js and lines 299 to 329
  perform them: \<open>a.x * b.x + a.y * b.y + a.z * b.z\<close> is two rounded sums of three rounded
  products, \<open>Math.sqrt\<close> is the rounded square root, and the literals \<open>0.20\<close> and \<open>1\<close> of
  \<open>defaultSettings\<close> are the doubles nearest to them.
\<close>

definition subVectors_fl :: "Vector3 \<Rightarrow> Vector3 \<Rightarrow> Vector3" where
  "subVectors_fl a b = \<lparr>vx = fl (vx a - vx b), vy = fl (vy a - vy b), vz = fl (vz a - vz b)\<rparr>"

definition addVectors_fl :: "Vector3 \<Rightarrow> Vector3 \<Rightarrow> Vector3" where
  "addVectors_fl a b = \<lparr>vx = fl (vx a + vx b), vy = fl (vy a + vy b), vz = fl (vz a + vz b)\<rparr>"

definition multiplyScalar_fl :: "Vector3 \<Rightarrow> real \<Rightarrow> Vector3" where
  "multiplyScalar_fl v s = \<lparr>vx = fl (vx v * s), vy = fl (vy v * s), vz = fl (vz v * s)\<rparr>"

definition dot_fl :: "Vector3 \<Rightarrow> Vector3 \<Rightarrow> real" where
  "dot_fl a b = fl (fl (fl (vx a * vx b) + fl (vy a * vy b)) + fl (vz a * vz b))"

definition length_fl :: "Vector3 \<Rightarrow> real" where
  "length_fl v = fl (sqrt (fl (fl (fl (vx v * vx v) + fl (vy v * vy v)) + fl (vz v * vz v))))"

definition distanceTo_fl :: "Vector3 \<Rightarrow> Vector3 \<Rightarrow> real" where
  "distanceTo_fl a b =
     (let dx = fl (vx a - vx b); dy = fl (vy a - vy b); dz = fl (vz a - vz b)
      in fl (sqrt (fl (fl (fl (dx * dx) + fl (dy * dy)) + fl (dz * dz)))))"

definition divide_fl :: "real \<Rightarrow> real \<Rightarrow> real option" where
  "divide_fl a b = (if b = 0 then None else Some (fl (a / b)))"

definition divideScalar_fl :: "Vector3 \<Rightarrow> real \<Rightarrow> Vector3 option" where
  "divideScalar_fl v s = do { r \<leftarrow> divide_fl 1 s; Some (multiplyScalar_fl v r) }"

definition normalize_fl :: "Vector3 \<Rightarrow> Vector3 option" where
  "normalize_fl v = divideScalar_fl v (if length_fl v = 0 then 1 else length_fl v)"

definition collide_fl :: "nat \<Rightarrow> nat \<Rightarrow> state \<Rightarrow> state option" where
  "collide_fl ID i st =
     (if i = ID then Some st
      else do {
        A \<leftarrow> lookup (balls st) ID;
        B \<leftarrow> lookup (balls st) i;
        if distanceTo_fl (position A) (position B) < fl (fl (ballRadius defaultSettings) * 2) then do {
          n \<leftarrow> normalize_fl (subVectors_fl (position B) (position A));
          v1 \<leftarrow> lookup (velocity st) ID;
          v2 \<leftarrow> lookup (velocity st) i;
          let a1 = dot_fl v1 n;
          let a2 = dot_fl v2 n;
          let m = fl (massOfSphere defaultSettings);
          optimizedP \<leftarrow> divide_fl (fl (2.0 * fl (a1 - a2))) (fl (m + m));
          let scalarN = multiplyScalar_fl n (fl (optimizedP * m));
          let viPrime = subVectors_fl v1 scalarN;
          let vdPrime = addVectors_fl v2 scalarN;
          Some (st\<lparr>velocity := (velocity st)[ID := viPrime, i := vdPrime],
                   trace := trace st @ [Collision ID i]\<rparr>)
        } else Some st
      })"

text \<open>The sum of the velocities of two balls (the masses are equal).\<close>

definition pairSum :: "nat \<Rightarrow> nat \<Rightarrow> state \<Rightarrow> Vector3" where
  "pairSum ID i st = addVectors (velocity st ! ID) (velocity st ! i)"

text \<open>
  The table of \<open>sampleState\<close> with ball 1 at \<open>(1/4, 1/4)\<close>: the centres of balls 0 and 1 are
  \<open>sqrt (1/8)\<close> apart, less than two radii, and every coordinate but the common \<open>z\<close> is a
  double. In \<open>diagonalState\<close> the two balls move towards each other along the line of
  centres with velocities \<open>v\<close> and \<open>-v\<close>; in \<open>restingTargetState\<close> ball 0 moves at
  \<open>(2, -1/2, 0)\<close> and ball 1 is at rest.
\<close>

definition diagonalState :: state where
  "diagonalState =
     sampleState\<lparr>balls := (balls sampleState)[1 := ballAt (1 / 4) (1 / 4)],
                 velocity := (velocity sampleState)[0 := planar 1 1, 1 := planar (- 1) (- 1)]\<rparr>"

definition restingTargetState :: state where
  "restingTargetState =
     diagonalState\<lparr>velocity := (velocity sampleState)[0 := planar 2 (- (1 / 2)), 1 := planar 0 0]\<rparr>"

text \<open>
  The distance of a computed number from the number of the real formula is counted in
  roundings: \<open>rel_err k y x\<close> says that \<open>y\<close> is \<open>x\<close> times a factor between
  \<open>(1 - 2^-53)^k\<close> and its inverse (and that \<open>y\<close> is 0 where \<open>x\<close> is), which is what \<open>k\<close>
  roundings in a row can leave.
  \<open>closeTo e a b\<close> says that each component of \<open>a\<close> is within the fraction \<open>e\<close> of the
  same component of \<open>b\<close>.
\<close>

definition below1 :: real where
  "below1 = 1 - 1 / 2 ^ 53"

definition rel_err :: "nat \<Rightarrow> real \<Rightarrow> real \<Rightarrow> bool" where
  "rel_err k y x \<longleftrightarrow>
     (if x = 0 then y = 0 else below1 ^ k \<le> y / x \<and> y / x * below1 ^ k \<le> 1)"

definition closeTo :: "real \<Rightarrow> Vector3 \<Rightarrow> Vector3 \<Rightarrow> bool" where
  "closeTo e a b \<longleftrightarrow>
     \<bar>vx a - vx b\<bar> \<le> e * \<bar>vx b\<bar> \<and> \<bar>vy a - vy b\<bar> \<le> e * \<bar>vy b\<bar> \<and> \<bar>vz a - vz b\<bar> \<le> e * \<bar>vz b\<bar>"

section \<open>Basic facts\<close>

subsection \<open>The settings and the concrete tables\<close>

lemma mass_default [simp]: "massOfSphere defaultSettings = 1"
  by (simp add: defaultSettings_def)

lemma radius_default [simp]: "ballRadius defaultSettings = 1/5"
  by (simp add: defaultSettings_def)

lemma tableSize_default [simp]: "tableSize defaultSettings = 10"
  by (simp add: defaultSettings_def)

lemma tableWidth_default [simp]: "tableWidth defaultSettings = 1 / 2"
  by (simp add: defaultSettings_def)

lemma nrOfBalls_default [simp]: "nrOfBalls defaultSettings = 8"
  by (simp add: defaultSettings_def)

lemma halfWidth_default: "tableSize defaultSettings / 2 - ballRadius defaultSettings = 24 / 5"
  by (simp add: defaultSettings_def)

lemma halfHeight_default: "tableSize defaultSettings / 4 - ballRadius defaultSettings = 23 / 10"
  by (simp add: defaultSettings_def)

lemma upt8: "[0..<8] = [0, 1, 2, 3, 4, 5, 6, 7]"
  by (simp add: upt_rec)

lemma wellFormed_sample: "wellFormed sampleState"
  by (simp add: wellFormed_def sampleState_def defaultSettings_def)

lemma onPlane_sample: "onPlane sampleState"
  by (simp add: onPlane_def sampleState_def ballAt_def planar_def)

lemma sample_clock:
  "0 \<le> currentTime sampleState" "currentTime sampleState mod 1000 = 0"
  "previousSec sampleState = (currentTime sampleState div 1000) mod 60"
  "decays k sampleState = 0"
  by (simp_all add: sampleState_def decays_def)

lemma corner_ball: "length (balls cornerState) = 8" "length (velocity cornerState) = 8"
  "position (balls cornerState ! 7) = \<lparr>vx = 49 / 10, vy = 12 / 5, vz = 9 / 20\<rparr>"
  "velocity cornerState ! 7 = \<lparr>vx = 2, vy = 1, vz = 0\<rparr>"
  by (simp_all add: cornerState_def cushionState_def ballAt_def planar_def)

subsection \<open>Vectors and matrices\<close>

lemma lookup_Some [simp]: "i < length xs \<Longrightarrow> lookup xs i = Some (xs ! i)"
  by (simp add: lookup_def)

lemma lookup_None [simp]: "\<not> i < length xs \<Longrightarrow> lookup xs i = None"
  by (simp add: lookup_def)

lemma Vector3_eta [simp]: "\<lparr>vx = vx v, vy = vy v, vz = vz v\<rparr> = v"
  by (cases v) simp

lemma length3_nonneg [simp]: "0 \<le> length3 v"
  by (simp add: length3_def)

lemma length3_eq_0_iff: "length3 v = 0 \<longleftrightarrow> vx v = 0 \<and> vy v = 0 \<and> vz v = 0"
proof -
  have "vx v * vx v + vy v * vy v + vz v * vz v = 0 \<longleftrightarrow> vx v = 0 \<and> vy v = 0 \<and> vz v = 0"
    by (smt (verit) mult_eq_0_iff zero_le_square add_nonneg_eq_0_iff add_nonneg_nonneg)
  then show ?thesis by (simp add: length3_def)
qed

lemma length3_sq: "length3 d * length3 d = vx d * vx d + vy d * vy d + vz d * vz d"
proof -
  have "0 \<le> vx d * vx d + vy d * vy d + vz d * vz d"
    by (intro add_nonneg_nonneg zero_le_square)
  then show ?thesis by (simp add: length3_def)
qed

lemma zero_vector_length3 [simp]: "length3 \<lparr>vx = 0, vy = 0, vz = 0\<rparr> = 0"
  by (simp add: length3_def)

lemma length3_planar_x [simp]: "length3 \<lparr>vx = a, vy = 0, vz = 0\<rparr> = \<bar>a\<bar>"
  by (simp add: length3_def)

lemma length3_planar_y [simp]: "length3 \<lparr>vx = 0, vy = a, vz = 0\<rparr> = \<bar>a\<bar>"
  by (simp add: length3_def)

lemma length3_multiplyScalar: "length3 (multiplyScalar v s) = \<bar>s\<bar> * length3 v"
proof -
  have "vx v * s * (vx v * s) + vy v * s * (vy v * s) + vz v * s * (vz v * s)
      = (s * s) * (vx v * vx v + vy v * vy v + vz v * vz v)"
    by (simp add: algebra_simps)
  then show ?thesis
    by (simp add: length3_def multiplyScalar_def real_sqrt_mult)
qed

lemma length3_flip_x: "\<bar>a\<bar> = \<bar>vx v\<bar> \<Longrightarrow> length3 (v\<lparr>vx := a\<rparr>) = length3 v"
proof -
  assume "\<bar>a\<bar> = \<bar>vx v\<bar>"
  then have "a * a = vx v * vx v" by (metis abs_mult_self_eq)
  then show ?thesis by (simp add: length3_def)
qed

lemma length3_flip_y: "\<bar>a\<bar> = \<bar>vy v\<bar> \<Longrightarrow> length3 (v\<lparr>vy := a\<rparr>) = length3 v"
proof -
  assume "\<bar>a\<bar> = \<bar>vy v\<bar>"
  then have "a * a = vy v * vy v" by (metis abs_mult_self_eq)
  then show ?thesis by (simp add: length3_def)
qed

lemma roll_shrinks: "length3 (multiplyScalar v rollFric) \<le> length3 v"
proof -
  have "0 \<le> length3 v" by (simp add: length3_def)
  then have "(4 / 5) * length3 v \<le> length3 v" by simp
  then show ?thesis by (simp add: length3_multiplyScalar rollFric_def)
qed

lemma roll_flip_x: "\<bar>a\<bar> = \<bar>vx v\<bar> \<Longrightarrow> length3 (multiplyScalar (v\<lparr>vx := a\<rparr>) rollFric) \<le> length3 v"
  using roll_shrinks [of "v\<lparr>vx := a\<rparr>"] by (simp add: length3_flip_x)

lemma roll_flip_y: "\<bar>a\<bar> = \<bar>vy v\<bar> \<Longrightarrow> length3 (multiplyScalar (v\<lparr>vy := a\<rparr>) rollFric) \<le> length3 v"
  using roll_shrinks [of "v\<lparr>vy := a\<rparr>"] by (simp add: length3_flip_y)

lemma subVectors_length3_0:
  "length3 (subVectors b a) = 0 \<longleftrightarrow> b = a"
  by (auto simp add: length3_eq_0_iff subVectors_def intro: Vector3.equality)

lemma normalize3_Some:
  "normalize3 v = Some (multiplyScalar v (1 / (if length3 v = 0 then 1 else length3 v)))"
  by (simp add: normalize3_def divideScalar_def divide_js_def)

lemma normalize3_zero: "normalize3 \<lparr>vx = 0, vy = 0, vz = 0\<rparr> = Some \<lparr>vx = 0, vy = 0, vz = 0\<rparr>"
  by (simp add: normalize3_Some multiplyScalar_def)

lemma distanceTo_less_iff:
  "0 < r \<Longrightarrow> distanceTo a b < r \<longleftrightarrow>
     (vx a - vx b) * (vx a - vx b) + (vy a - vy b) * (vy a - vy b) + (vz a - vz b) * (vz a - vz b) < r * r"
proof -
  assume r: "0 < r"
  let ?q = "(vx a - vx b) * (vx a - vx b) + (vy a - vy b) * (vy a - vy b) + (vz a - vz b) * (vz a - vz b)"
  have "sqrt ?q < r \<longleftrightarrow> sqrt ?q < sqrt (r * r)" using r by simp
  also have "\<dots> \<longleftrightarrow> ?q < r * r" by (rule real_sqrt_less_iff)
  finally show ?thesis by (simp add: distanceTo_def Let_def)
qed

lemma distanceTo_near [simp]:
  "distanceTo a b * 5 < 2 \<longleftrightarrow>
     (vx a - vx b) * (vx a - vx b) + (vy a - vy b) * (vy a - vy b) + (vz a - vz b) * (vz a - vz b) < 4 / 25"
  using distanceTo_less_iff [of "2 / 5" a b] by simp

lemma makeRotationAxis_0: "makeRotationAxis axis 0 = identity4"
  by (simp add: makeRotationAxis_def identity4_def)

lemma multiply_identity4: "multiply m identity4 = m"
  by (simp add: multiply_def identity4_def)

subsection \<open>Rounding to a double\<close>

lemma round_even_of_int [simp]: "round_even (of_int m) = m"
  by (simp add: round_even_def)

lemma round_even_nonneg: "0 \<le> y \<Longrightarrow> 0 \<le> round_even y"
  by (simp add: round_even_def Let_def)

lemma round_even_le: "y \<le> of_int m \<Longrightarrow> round_even y \<le> m"
proof -
  assume a: "y \<le> of_int m"
  then have f: "\<lfloor>y\<rfloor> \<le> m" by (simp add: floor_le_iff)
  show ?thesis
  proof (cases "\<lfloor>y\<rfloor> = m")
    case True
    then have "y = of_int m" using a by linarith
    then show ?thesis by simp
  next
    case False
    then have "\<lfloor>y\<rfloor> + 1 \<le> m" using f by simp
    then show ?thesis by (simp add: round_even_def Let_def)
  qed
qed

lemma fl_0 [simp]: "fl 0 = 0"
  by (simp add: fl_def)

lemma fl_nonneg: "0 \<le> x \<Longrightarrow> 0 \<le> fl x"
  by (simp add: fl_def Let_def round_even_nonneg)

lemma pow2_int: "0 \<le> k \<Longrightarrow> (2::real) powr of_int k = of_int (2 ^ nat k)"
  by (simp add: powr_real_of_int)

lemma fl_le_int:
  assumes "x \<le> of_int n" "0 < n" "n < 2 ^ 53"
  shows "fl x \<le> of_int n"
proof (cases "0 < x")
  case False
  then have "x \<le> 0" by simp
  then have "round_even (x / 2 powr (of_int \<lfloor>log 2 \<bar>x\<bar>\<rfloor> - 52)) \<le> 0"
    by (intro round_even_le) (simp add: divide_le_0_iff)
  then have "fl x \<le> 0"
    by (simp add: fl_def Let_def mult_le_0_iff)
  then show ?thesis using assms(2) by linarith
next
  case True
  define e where "e = \<lfloor>log 2 \<bar>x\<bar>\<rfloor>"
  define k where "k = 52 - e"
  have "log 2 x \<le> log 2 (of_int n)" using True assms(1) by simp
  also have "\<dots> < log 2 (2 ^ 53)" using assms(2,3) by simp
  also have "\<dots> = of_nat 53" by (rule log_pow_cancel) simp_all
  finally have "e < 53" using True by (simp add: e_def floor_less_iff)
  then have k: "0 \<le> k" by (simp add: k_def)
  have ulp: "(2::real) powr (of_int e - 52) = 1 / of_int (2 ^ nat k)"
  proof -
    have "(2::real) powr (of_int e - 52) = 2 powr (- of_int k)" by (simp add: k_def)
    also have "\<dots> = 1 / 2 powr of_int k" by (simp add: powr_minus_divide)
    finally show ?thesis by (simp only: pow2_int [OF k])
  qed
  have "x / (1 / of_int (2 ^ nat k)) \<le> of_int (n * 2 ^ nat k)"
    using assms(1) by (simp add: mult_right_mono)
  then have "round_even (x / (1 / of_int (2 ^ nat k))) \<le> n * 2 ^ nat k"
    by (rule round_even_le)
  then have "of_int (round_even (x / (1 / of_int (2 ^ nat k)))) \<le> (of_int (n * 2 ^ nat k) :: real)"
    by (simp only: of_int_le_iff)
  then have "of_int (round_even (x / (1 / of_int (2 ^ nat k)))) * (1 / of_int (2 ^ nat k))
      \<le> (of_int n :: real)"
    by (simp add: field_simps)
  then show ?thesis using True
    by (simp only: fl_def Let_def e_def [symmetric] ulp) simp
qed


lemma floor_log2_scale:
  assumes "x \<noteq> 0"
  shows "\<lfloor>log 2 \<bar>x * 2 powr of_int k\<bar>\<rfloor> = \<lfloor>log 2 \<bar>x\<bar>\<rfloor> + k"
proof -
  have "\<bar>x * 2 powr of_int k\<bar> = \<bar>x\<bar> * 2 powr of_int k" by (simp add: abs_mult)
  then have "log 2 \<bar>x * 2 powr of_int k\<bar> = log 2 \<bar>x\<bar> + of_int k"
    using assms by (simp add: log_mult)
  then show ?thesis by simp
qed

lemma fl_exact:
  assumes "\<bar>m\<bar> < 2 ^ 53"
  shows "fl (of_int m * 2 powr of_int k) = of_int m * 2 powr of_int k"
proof (cases "m = 0")
  case True
  then show ?thesis by simp
next
  case False
  define b where "b = \<lfloor>log 2 \<bar>of_int m :: real\<bar>\<rfloor>"
  define j where "j = 52 - b"
  have m0: "(of_int m :: real) \<noteq> 0" using False by simp
  have "\<bar>of_int m :: real\<bar> < 2 ^ 53" using assms by (metis of_int_abs of_int_less_numeral_power_cancel_iff)
  then have "log 2 \<bar>of_int m :: real\<bar> < log 2 (2 ^ 53)" using m0 by simp
  also have "\<dots> = of_nat 53" by (rule log_pow_cancel) simp_all
  finally have "b < 53" by (simp add: b_def floor_less_iff)
  then have j: "0 \<le> j" by (simp add: j_def)
  have x0: "of_int m * 2 powr of_int k \<noteq> (0::real)" using m0 by simp
  have e: "\<lfloor>log 2 \<bar>of_int m * 2 powr of_int k\<bar>\<rfloor> = b + k"
    unfolding b_def by (rule floor_log2_scale [OF m0])
  have ulp: "(2::real) powr (of_int (b + k) - 52) = 2 powr of_int k / of_int (2 ^ nat j)"
  proof -
    have "(of_int (b + k) - 52 :: real) = of_int k - of_int j" by (simp add: j_def)
    then have "(2::real) powr (of_int (b + k) - 52) = 2 powr (of_int k - of_int j)" by (simp only:)
    also have "\<dots> = 2 powr of_int k / 2 powr of_int j" by (simp add: powr_diff)
    finally show ?thesis by (simp only: pow2_int [OF j])
  qed
  have q: "of_int m * 2 powr of_int k / (2 powr of_int k / of_int (2 ^ nat j))
      = (of_int (m * 2 ^ nat j) :: real)"
    by simp
  show ?thesis
    using x0 by (simp only: fl_def Let_def e ulp q round_even_of_int if_False) simp
qed

lemma fl_of_int: "\<bar>m\<bar> < 2 ^ 53 \<Longrightarrow> fl (of_int m) = of_int m"
  using fl_exact [of m 0] by simp

lemma fl_dyadic: "\<bar>m\<bar> < 2 ^ 53 \<Longrightarrow> fl (of_int m / 2 ^ n) = of_int m / 2 ^ n"
proof -
  assume a: "\<bar>m\<bar> < 2 ^ 53"
  have "(2::real) powr of_int (- int n) = 1 / 2 ^ n"
    by (simp add: powr_minus_divide powr_realpow)
  then show ?thesis using fl_exact [OF a, of "- int n"] by simp
qed

lemma fl_frames: "fl 10 = 10" "fl 100 = 100" "fl 125 = 125"
  "fl (34125 / 256) = 34125 / 256" "fl (125 / 256) = 125 / 256"
  using fl_of_int [of 10] fl_of_int [of 100] fl_of_int [of 125]
    fl_dyadic [of 34125 8] fl_dyadic [of 125 8]
  by simp_all

lemma round_even_minus: "round_even (- y) = - round_even y"
proof (cases "y = of_int \<lfloor>y\<rfloor>")
  case True
  then obtain f where y: "y = of_int f" ..
  have "round_even (of_int (- f)) = - f" by (rule round_even_of_int)
  then show ?thesis by (simp add: y)
next
  case False
  then have c: "\<lceil>y\<rceil> = \<lfloor>y\<rfloor> + 1" by (simp add: ceiling_altdef)
  have f: "\<lfloor>- y\<rfloor> = - \<lfloor>y\<rfloor> - 1" by (simp add: floor_minus c)
  have r: "of_int \<lfloor>y\<rfloor> < y" using False by linarith
  show ?thesis
    unfolding round_even_def Let_def f using r by auto
qed

lemma round_even_error: "\<bar>of_int (round_even y) - y\<bar> \<le> 1 / 2"
  unfolding round_even_def Let_def by (auto; linarith)

lemma round_even_ge: "of_int m \<le> y \<Longrightarrow> m \<le> round_even y"
  using round_even_le [of "- y" "- m"] by (simp add: round_even_minus)

lemma round_even_near: "\<bar>y - of_int m\<bar> < 1 / 2 \<Longrightarrow> round_even y = m"
proof -
  assume a: "\<bar>y - of_int m\<bar> < 1 / 2"
  have "\<bar>of_int (round_even y) - y\<bar> \<le> 1 / 2" by (rule round_even_error)
  then have "\<bar>(of_int (round_even y) :: real) - of_int m\<bar> < 1" using a by linarith
  then have "\<bar>(of_int (round_even y - m) :: real)\<bar> < 1" by simp
  then have "\<bar>round_even y - m\<bar> < 1" by (metis of_int_abs of_int_less_1_iff)
  then show ?thesis by simp
qed

lemma round_even_half: "round_even (of_int f + 1 / 2) = (if even f then f else f + 1)"
proof -
  have "\<lfloor>of_int f + 1 / 2 :: real\<rfloor> = f" by linarith
  then show ?thesis by (simp add: round_even_def Let_def)
qed

lemma fl_minus: "fl (- x) = - fl x"
  by (simp add: fl_def Let_def round_even_minus)

lemma fl_error: "\<bar>fl x - x\<bar> \<le> \<bar>x\<bar> / 2 ^ 53"
proof (cases "x = 0")
  case True
  then show ?thesis by simp
next
  case x: False
  define ulp where "ulp = (2::real) powr (of_int \<lfloor>log 2 \<bar>x\<bar>\<rfloor> - 52)"
  have u: "0 < ulp" by (simp add: ulp_def)
  have "2 powr of_int \<lfloor>log 2 \<bar>x\<bar>\<rfloor> \<le> 2 powr log 2 \<bar>x\<bar>" by (simp del: powr_log_cancel)
  then have le: "2 powr of_int \<lfloor>log 2 \<bar>x\<bar>\<rfloor> \<le> \<bar>x\<bar>" using x by simp
  have "ulp * 2 ^ 52 = 2 powr of_int \<lfloor>log 2 \<bar>x\<bar>\<rfloor>"
    by (simp add: ulp_def powr_diff)
  then have ux: "ulp / 2 \<le> \<bar>x\<bar> / 2 ^ 53" using le by simp
  have flx: "fl x = of_int (round_even (x / ulp)) * ulp"
    using x by (simp add: fl_def Let_def ulp_def)
  have "fl x - x = (of_int (round_even (x / ulp)) - x / ulp) * ulp"
    using u by (simp add: flx field_simps)
  then have "\<bar>fl x - x\<bar> = \<bar>of_int (round_even (x / ulp)) - x / ulp\<bar> * ulp"
    using u by (simp add: abs_mult)
  also have "\<dots> \<le> 1 / 2 * ulp"
    using round_even_error [of "x / ulp"] u by (intro mult_right_mono) simp_all
  finally show ?thesis using ux by simp
qed

lemma fl_error_result: "\<bar>fl x - x\<bar> \<le> \<bar>fl x\<bar> / 2 ^ 53"
proof -
  have pos: "\<bar>fl x - x\<bar> \<le> \<bar>fl x\<bar> / 2 ^ 53" if x: "0 < x" for x
  proof -
    define ulp where "ulp = (2::real) powr (of_int \<lfloor>log 2 \<bar>x\<bar>\<rfloor> - 52)"
    have u: "0 < ulp" by (simp add: ulp_def)
    have "2 powr of_int \<lfloor>log 2 \<bar>x\<bar>\<rfloor> \<le> 2 powr log 2 \<bar>x\<bar>" by (simp del: powr_log_cancel)
    then have le: "2 powr of_int \<lfloor>log 2 \<bar>x\<bar>\<rfloor> \<le> x" using x by simp
    have p: "ulp * 2 ^ 52 = 2 powr of_int \<lfloor>log 2 \<bar>x\<bar>\<rfloor>"
      by (simp add: ulp_def powr_diff)
    then have "of_int (2 ^ 52) \<le> x / ulp" using le u by (simp add: field_simps)
    then have "2 ^ 52 \<le> round_even (x / ulp)" by (rule round_even_ge)
    then have "(2 ^ 52 :: real) \<le> of_int (round_even (x / ulp))"
      by (metis of_int_le_iff of_int_numeral of_int_power)
    then have "2 ^ 52 * ulp \<le> of_int (round_even (x / ulp)) * ulp"
      using u by (intro mult_right_mono) simp_all
    moreover have flx: "fl x = of_int (round_even (x / ulp)) * ulp"
      using x by (simp add: fl_def Let_def ulp_def)
    ultimately have big: "2 ^ 52 * ulp \<le> fl x" by simp
    have "fl x - x = (of_int (round_even (x / ulp)) - x / ulp) * ulp"
      using u by (simp add: flx field_simps)
    then have "\<bar>fl x - x\<bar> = \<bar>of_int (round_even (x / ulp)) - x / ulp\<bar> * ulp"
      using u by (simp add: abs_mult)
    also have "\<dots> \<le> 1 / 2 * ulp"
      using round_even_error [of "x / ulp"] u by (intro mult_right_mono) simp_all
    finally show ?thesis using big by simp
  qed
  consider "x = 0" | "0 < x" | "0 < - x" by linarith
  then show ?thesis
  proof cases
    case 1
    then show ?thesis by simp
  next
    case 2
    then show ?thesis by (rule pos)
  next
    case 3
    have "\<bar>fl x - x\<bar> = \<bar>fl (- x) - (- x)\<bar>" by (simp add: fl_minus)
    also have "\<dots> \<le> \<bar>fl (- x)\<bar> / 2 ^ 53" using 3 by (rule pos)
    finally show ?thesis by (simp add: fl_minus)
  qed
qed

lemma fl_eval:
  assumes "2 ^ 52 \<le> \<bar>x\<bar> * 2 ^ n" "\<bar>x\<bar> * 2 ^ n < 2 ^ 53" "\<bar>x * 2 ^ n - of_int m\<bar> < 1 / 2"
  shows "fl x = of_int m / 2 ^ n"
proof -
  have x: "x \<noteq> 0" using assms(1) by auto
  have ax: "0 < \<bar>x\<bar>" using x by simp
  have "log 2 (2 ^ 52) \<le> log 2 (\<bar>x\<bar> * 2 ^ n)" using assms(1) by (subst log_le_cancel_iff) simp_all
  moreover have "log 2 (2 ^ 52) = of_nat 52" by (rule log_pow_cancel) simp_all
  moreover have "log 2 (2 ^ n) = of_nat n" by (rule log_pow_cancel) simp_all
  ultimately have lo: "52 - of_nat n \<le> log 2 \<bar>x\<bar>" using ax by (simp add: log_mult)
  have "log 2 (\<bar>x\<bar> * 2 ^ n) < log 2 (2 ^ 53)" using assms(2) ax by (subst log_less_cancel_iff) simp_all
  moreover have "log 2 (2 ^ 53) = of_nat 53" by (rule log_pow_cancel) simp_all
  moreover have "log 2 (2 ^ n) = of_nat n" by (rule log_pow_cancel) simp_all
  ultimately have hi: "log 2 \<bar>x\<bar> < 53 - of_nat n" using ax by (simp add: log_mult)
  have e: "\<lfloor>log 2 \<bar>x\<bar>\<rfloor> = 52 - int n"
    using lo hi by (simp add: floor_eq_iff)
  have ulp: "(2::real) powr (of_int (52 - int n) - 52) = 1 / 2 ^ n"
  proof -
    have "(of_int (52 - int n) - 52 :: real) = - of_nat n" by simp
    then show ?thesis by (simp only: powr_minus_divide powr_realpow zero_less_numeral)
  qed
  have r: "round_even (x / (1 / 2 ^ n)) = m"
    using assms(3) by (intro round_even_near) simp
  show ?thesis using x by (simp only: fl_def Let_def e ulp r if_False) simp
qed

lemma fl_eval_tie:
  assumes "2 ^ 52 \<le> \<bar>x\<bar> * 2 ^ n" "\<bar>x\<bar> * 2 ^ n < 2 ^ 53" "x * 2 ^ n = of_int f + 1 / 2"
  shows "fl x = of_int (if even f then f else f + 1) / 2 ^ n"
proof -
  have x: "x \<noteq> 0" using assms(1) by auto
  have ax: "0 < \<bar>x\<bar>" using x by simp
  have "log 2 (2 ^ 52) \<le> log 2 (\<bar>x\<bar> * 2 ^ n)" using assms(1) by (subst log_le_cancel_iff) simp_all
  moreover have "log 2 (2 ^ 52) = of_nat 52" by (rule log_pow_cancel) simp_all
  moreover have "log 2 (2 ^ n) = of_nat n" by (rule log_pow_cancel) simp_all
  ultimately have lo: "52 - of_nat n \<le> log 2 \<bar>x\<bar>" using ax by (simp add: log_mult)
  have "log 2 (\<bar>x\<bar> * 2 ^ n) < log 2 (2 ^ 53)" using assms(2) ax by (subst log_less_cancel_iff) simp_all
  moreover have "log 2 (2 ^ 53) = of_nat 53" by (rule log_pow_cancel) simp_all
  moreover have "log 2 (2 ^ n) = of_nat n" by (rule log_pow_cancel) simp_all
  ultimately have hi: "log 2 \<bar>x\<bar> < 53 - of_nat n" using ax by (simp add: log_mult)
  have e: "\<lfloor>log 2 \<bar>x\<bar>\<rfloor> = 52 - int n"
    using lo hi by (simp add: floor_eq_iff)
  have ulp: "(2::real) powr (of_int (52 - int n) - 52) = 1 / 2 ^ n"
  proof -
    have "(of_int (52 - int n) - 52 :: real) = - of_nat n" by simp
    then show ?thesis by (simp only: powr_minus_divide powr_realpow zero_less_numeral)
  qed
  have "x / (1 / 2 ^ n) = of_int f + 1 / 2" using assms(3) by simp
  then have r: "round_even (x / (1 / 2 ^ n)) = (if even f then f else f + 1)"
    by (simp only: round_even_half)
  show ?thesis using x by (simp only: fl_def Let_def e ulp r if_False) simp
qed

text \<open>The doubles met on the tables \<open>diagonalState\<close> and \<open>restingTargetState\<close>.\<close>

lemma fl_values:
  "fl (1 / 4) = 1 / 4" "fl (1 / 16) = 1 / 16" "fl (1 / 8) = 1 / 8" "fl 1 = 1" "fl 2 = 2"
  using fl_dyadic [of 1 2] fl_dyadic [of 1 4] fl_dyadic [of 1 3] fl_of_int [of 1] fl_of_int [of 2]
  by simp_all

lemma fl_fifth: "fl (1 / 5) = 3602879701896397 / 18014398509481984"
  using fl_eval [of "1 / 5" 55 7205759403792794] by simp

lemma fl_two_radii: "fl (fl (1 / 5) * 2) = 3602879701896397 / 9007199254740992"
  using fl_dyadic [of 3602879701896397 53] by (simp add: fl_fifth)

lemma sqrt_eighth:
  "12738103345051545 / 36028797018963968 < sqrt (1 / 8)"
  "sqrt (1 / 8) < 12738103345051547 / 36028797018963968"
proof -
  show "12738103345051545 / 36028797018963968 < sqrt (1 / 8)"
    by (rule real_less_rsqrt) (simp add: power2_eq_square)
  show "sqrt (1 / 8) < 12738103345051547 / 36028797018963968"
    by (rule real_less_lsqrt) (simp_all add: power2_eq_square)
qed

lemma fl_sqrt_eighth: "fl (sqrt (1 / 8)) = 6369051672525773 / 18014398509481984"
proof -
  have "fl (sqrt (1 / 8)) = of_int 6369051672525773 / 2 ^ 54"
  proof (rule fl_eval)
    show "2 ^ 52 \<le> \<bar>sqrt (1 / 8)\<bar> * 2 ^ 54" using sqrt_eighth(1) by simp
    show "\<bar>sqrt (1 / 8)\<bar> * 2 ^ 54 < 2 ^ 53" using sqrt_eighth(2) by simp
    have "\<bar>sqrt (1 / 8) * 18014398509481984 - 6369051672525773\<bar> < 1 / 2"
      using sqrt_eighth by linarith
    then show "\<bar>sqrt (1 / 8) * 2 ^ 54 - of_int 6369051672525773\<bar> < 1 / 2" by simp
  qed
  then show ?thesis by simp
qed

lemma fl_recip: "fl (18014398509481984 / 6369051672525773) = 1592262918131443 / 562949953421312"
proof -
  have "fl (18014398509481984 / 6369051672525773) = of_int 6369051672525772 / 2 ^ 51"
  proof (rule fl_eval)
    show "2 ^ 52 \<le> \<bar>18014398509481984 / 6369051672525773 :: real\<bar> * 2 ^ 51" by simp
    show "\<bar>18014398509481984 / 6369051672525773 :: real\<bar> * 2 ^ 51 < 2 ^ 53" by simp
    show "\<bar>18014398509481984 / 6369051672525773 * 2 ^ 51 - of_int 6369051672525772 :: real\<bar> < 1 / 2"
      by (simp add: abs_less_iff)
  qed
  then show ?thesis by simp
qed

lemma fl_impulse_diagonal: "fl (2535301200456458353478625262249 / 1267650600228229401496703205376) = 4503599627370495 / 2251799813685248"
proof -
  have "fl (2535301200456458353478625262249 / 1267650600228229401496703205376) = of_int 9007199254740990 / 2 ^ 52"
  proof (rule fl_eval)
    show "2 ^ 52 \<le> \<bar>2535301200456458353478625262249 / 1267650600228229401496703205376 :: real\<bar> * 2 ^ 52" by simp
    show "\<bar>2535301200456458353478625262249 / 1267650600228229401496703205376 :: real\<bar> * 2 ^ 52 < 2 ^ 53" by simp
    show "\<bar>2535301200456458353478625262249 / 1267650600228229401496703205376 * 2 ^ 52 - of_int 9007199254740990 :: real\<bar> < 1 / 2"
      by (simp add: abs_less_iff)
  qed
  then show ?thesis by simp
qed

lemma fl_impulse_resting: "fl (7605903601369375060435875786747 / 10141204801825835211973625643008) = 6755399441055743 / 9007199254740992"
proof -
  have "fl (7605903601369375060435875786747 / 10141204801825835211973625643008) = of_int 6755399441055743 / 2 ^ 53"
  proof (rule fl_eval)
    show "2 ^ 52 \<le> \<bar>7605903601369375060435875786747 / 10141204801825835211973625643008 :: real\<bar> * 2 ^ 53" by simp
    show "\<bar>7605903601369375060435875786747 / 10141204801825835211973625643008 :: real\<bar> * 2 ^ 53 < 2 ^ 53" by simp
    show "\<bar>7605903601369375060435875786747 / 10141204801825835211973625643008 * 2 ^ 53 - of_int 6755399441055743 :: real\<bar> < 1 / 2"
      by (simp add: abs_less_iff)
  qed
  then show ?thesis by simp
qed

lemma fl_tie_x: "fl (11258999068426241 / 9007199254740992) = 5 / 4"
proof -
  have "fl (11258999068426241 / 9007199254740992) = of_int (if even (5629499534213120::int) then 5629499534213120 else 5629499534213120 + 1) / 2 ^ 52"
  proof (rule fl_eval_tie)
    show "2 ^ 52 \<le> \<bar>11258999068426241 / 9007199254740992 :: real\<bar> * 2 ^ 52" by simp
    show "\<bar>11258999068426241 / 9007199254740992 :: real\<bar> * 2 ^ 52 < 2 ^ 53" by simp
    show "11258999068426241 / 9007199254740992 * 2 ^ 52 = (of_int 5629499534213120 + 1 / 2 :: real)" by simp
  qed
  then show ?thesis by simp
qed

lemma fl_tie_y: "fl (11258999068426239 / 9007199254740992) = 5 / 4"
proof -
  have "fl (11258999068426239 / 9007199254740992) = of_int (if even (5629499534213119::int) then 5629499534213119 else 5629499534213119 + 1) / 2 ^ 52"
  proof (rule fl_eval_tie)
    show "2 ^ 52 \<le> \<bar>11258999068426239 / 9007199254740992 :: real\<bar> * 2 ^ 52" by simp
    show "\<bar>11258999068426239 / 9007199254740992 :: real\<bar> * 2 ^ 52 < 2 ^ 53" by simp
    show "11258999068426239 / 9007199254740992 * 2 ^ 52 = (of_int 5629499534213119 + 1 / 2 :: real)" by simp
  qed
  then show ?thesis by simp
qed

lemma fl_exact_values:
  "fl (1592262918131443 / 2251799813685248) = 1592262918131443 / 2251799813685248"
  "fl (1592262918131443 / 1125899906842624) = 1592262918131443 / 1125899906842624"
  "fl (1592262918131443 / 562949953421312) = 1592262918131443 / 562949953421312"
  "fl (1592262918131443 / 281474976710656) = 1592262918131443 / 281474976710656"
  "fl (2251799813685247 / 2251799813685248) = 2251799813685247 / 2251799813685248"
  "fl (1592262918131443 / 4503599627370496) = 1592262918131443 / 4503599627370496"
  "fl (4776788754394329 / 4503599627370496) = 4776788754394329 / 4503599627370496"
  "fl (4776788754394329 / 2251799813685248) = 4776788754394329 / 2251799813685248"
  "fl (6755399441055743 / 9007199254740992) = 6755399441055743 / 9007199254740992"
  using fl_dyadic [of 1592262918131443 51] fl_dyadic [of 1592262918131443 50]
    fl_dyadic [of 1592262918131443 49] fl_dyadic [of 1592262918131443 48]
    fl_dyadic [of 2251799813685247 51] fl_dyadic [of 1592262918131443 52]
    fl_dyadic [of 4776788754394329 52] fl_dyadic [of 4776788754394329 51]
    fl_dyadic [of 6755399441055743 53]
  by simp_all

subsection \<open>Relative errors\<close>

lemma w_bounds: "0 < below1" "below1 \<le> 1"
  by (simp_all add: below1_def)

lemma w_pow: "0 < below1 ^ k" "below1 ^ k \<le> 1"
  using w_bounds by (simp_all add: power_le_one)

lemma rel_errI: "y = r * x \<Longrightarrow> below1 ^ k \<le> r \<Longrightarrow> r * below1 ^ k \<le> 1
    \<Longrightarrow> rel_err k y x"
  by (simp add: rel_err_def)

lemma rel_errE:
  assumes "rel_err k y x"
  obtains r where "y = r * x" "below1 ^ k \<le> r" "r * below1 ^ k \<le> 1" "0 < r"
proof (cases "x = 0")
  case True
  then have "y = 1 * x" using assms by (simp add: rel_err_def)
  then show ?thesis using w_pow [of k] by (intro that [of 1]) simp_all
next
  case False
  then have r: "y = y / x * x" "below1 ^ k \<le> y / x" "y / x * below1 ^ k \<le> 1"
    using assms by (simp_all add: rel_err_def)
  have "0 < y / x" using r(2) w_pow(1) [of k] by linarith
  then show ?thesis using r by (intro that [of "y / x"])
qed

lemma rel_err_refl: "rel_err k x x"
  using w_pow [of k] by (intro rel_errI [of _ 1]) simp_all

lemma rel_err_mono:
  assumes "rel_err k y x" "k \<le> m"
  shows "rel_err m y x"
proof -
  from assms(1) obtain r where r: "y = r * x" "below1 ^ k \<le> r"
    "r * below1 ^ k \<le> 1" "0 < r" by (rule rel_errE)
  have le: "below1 ^ m \<le> below1 ^ k"
    using assms(2) w_bounds by (intro power_decreasing) simp_all
  have "r * below1 ^ m \<le> r * below1 ^ k"
    using le r(4) by (intro mult_left_mono) simp_all
  then have hi: "r * below1 ^ m \<le> 1" using r(3) by linarith
  have lo: "below1 ^ m \<le> r" using le r(2) by linarith
  show ?thesis using r(1) lo hi by (rule rel_errI)
qed

lemma fl_ratio:
  obtains d where "fl y = d * y" "below1 \<le> d" "d * below1 \<le> 1"
proof (cases "y = 0")
  case True
  show ?thesis using w_bounds by (intro that [of 1]) (simp_all add: True)
next
  case False
  define d where "d = fl y / y"
  have e: "\<bar>fl y - y\<bar> \<le> \<bar>y\<bar> / 2 ^ 53" by (rule fl_error)
  have "fl y - y = (d - 1) * y" using False by (simp add: d_def field_simps)
  then have "\<bar>d - 1\<bar> * \<bar>y\<bar> \<le> \<bar>y\<bar> / 2 ^ 53" using e by (simp add: abs_mult)
  then have "\<bar>d - 1\<bar> * \<bar>y\<bar> \<le> (1 / 2 ^ 53) * \<bar>y\<bar>" by simp
  then have b: "\<bar>d - 1\<bar> \<le> 1 / 2 ^ 53" using False by (simp only: mult_le_cancel_right)
  have lo: "below1 \<le> d" using b unfolding below1_def by linarith
  have "d \<le> 1 + 1 / 2 ^ 53" using b by linarith
  then have "d * below1 \<le> (1 + 1 / 2 ^ 53) * below1"
    using w_bounds by (intro mult_right_mono) simp_all
  also have "\<dots> \<le> 1" by (simp add: below1_def)
  finally have hi: "d * below1 \<le> 1" .
  show ?thesis by (rule that [of d]) (use False lo hi in \<open>simp_all add: d_def\<close>)
qed

lemma rel_err_fl:
  assumes "rel_err k y x"
  shows "rel_err (Suc k) (fl y) x"
proof -
  from assms obtain r where r: "y = r * x" "below1 ^ k \<le> r"
    "r * below1 ^ k \<le> 1" "0 < r" by (rule rel_errE)
  obtain d where d: "fl y = d * y" "below1 \<le> d" "d * below1 \<le> 1"
    by (rule fl_ratio)
  have d0: "0 \<le> d" using d(2) w_bounds by linarith
  show ?thesis
  proof (rule rel_errI [of _ "d * r"])
    show "fl y = d * r * x" using d(1) by (simp only: r(1) mult.assoc)
    have "below1 * below1 ^ k \<le> d * r"
      using d(2) r(2) r(4) w_pow [of k] w_bounds by (intro mult_mono) simp_all
    then show "below1 ^ Suc k \<le> d * r" by simp
    have "(d * below1) * (r * below1 ^ k) \<le> 1 * 1"
      using d(3) r(3) d0 r(4) w_pow [of k] by (intro mult_mono) simp_all
    then show "d * r * below1 ^ Suc k \<le> 1" by (simp add: mult_ac)
  qed
qed

lemma rel_err_flS: "rel_err k y x \<Longrightarrow> Suc k \<le> m \<Longrightarrow> rel_err m (fl y) x"
  using rel_err_mono [OF rel_err_fl] by blast

lemma rel_err_fl0: "rel_err (Suc 0) (fl x) x"
  by (rule rel_err_fl) (rule rel_err_refl)

lemma rel_err_mult:
  assumes "rel_err k a' a" "rel_err m b' b"
  shows "rel_err (k + m) (a' * b') (a * b)"
proof -
  from assms(1) obtain r where r: "a' = r * a" "below1 ^ k \<le> r"
    "r * below1 ^ k \<le> 1" "0 < r" by (rule rel_errE)
  from assms(2) obtain q where q: "b' = q * b" "below1 ^ m \<le> q"
    "q * below1 ^ m \<le> 1" "0 < q" by (rule rel_errE)
  show ?thesis
  proof (rule rel_errI [of _ "r * q"])
    show "a' * b' = r * q * (a * b)" by (simp add: r(1) q(1))
    have "below1 ^ k * below1 ^ m \<le> r * q"
      using r(2,4) q(2) w_pow [of k] w_pow [of m] by (intro mult_mono) simp_all
    then show "below1 ^ (k + m) \<le> r * q" by (simp add: power_add)
    have "(r * below1 ^ k) * (q * below1 ^ m) \<le> 1 * 1"
      using r(3,4) q(3,4) w_pow [of k] w_pow [of m] by (intro mult_mono) simp_all
    then show "r * q * below1 ^ (k + m) \<le> 1" by (simp add: power_add mult_ac)
  qed
qed

lemma rel_err_cmult: "rel_err k y x \<Longrightarrow> rel_err k (c * y) (c * x)"
  using rel_err_mult [OF rel_err_refl [of 0 c], of k y x] by simp

lemma rel_err_minus: "rel_err k y x \<Longrightarrow> rel_err k (- y) (- x)"
  using rel_err_cmult [of k y x "- 1"] by simp

lemma rel_err_add_nonneg:
  assumes "rel_err k a' a" "rel_err k b' b" "0 \<le> a" "0 \<le> b"
  shows "rel_err k (a' + b') (a + b)"
proof (cases "a + b = 0")
  case True
  then have "a = 0" "b = 0" using assms(3,4) by simp_all
  then have "a' + b' = a + b" using assms(1,2) by (auto simp: rel_err_def)
  then show ?thesis by (simp add: rel_err_refl)
next
  case False
  then have pos: "0 < a + b" using assms(3,4) by simp
  from assms(1) obtain r where r: "a' = r * a" "below1 ^ k \<le> r"
    "r * below1 ^ k \<le> 1" "0 < r" by (rule rel_errE)
  from assms(2) obtain q where q: "b' = q * b" "below1 ^ k \<le> q"
    "q * below1 ^ k \<le> 1" "0 < q" by (rule rel_errE)
  define w where "w = below1 ^ k"
  have w: "0 < w" unfolding w_def by (rule w_pow)
  define t where "t = (r * a + q * b) / (a + b)"
  have t: "t * (a + b) = r * a + q * b" using pos by (simp add: t_def)
  show ?thesis
  proof (rule rel_errI [of _ t])
    show "a' + b' = t * (a + b)" by (simp add: t r(1) q(1))
    have "w * a \<le> r * a" "w * b \<le> q * b"
      using r(2) q(2) assms(3,4) by (simp_all add: w_def mult_right_mono)
    then have "w * (a + b) \<le> r * a + q * b" by (simp add: algebra_simps)
    then show "below1 ^ k \<le> t"
      using pos by (simp add: t_def w_def pos_le_divide_eq)
    have "(r * w) * a \<le> 1 * a" "(q * w) * b \<le> 1 * b"
      using r(3) q(3) assms(3,4) by (simp_all only: w_def mult_right_mono)
    then have "(r * a + q * b) * w \<le> a + b" by (simp add: algebra_simps)
    then have "t * (a + b) * w \<le> a + b" by (simp only: t)
    then have "(t * w) * (a + b) \<le> 1 * (a + b)" by (simp add: mult_ac)
    then have "t * w \<le> 1" using pos by (simp only: mult_le_cancel_right)
    then show "t * below1 ^ k \<le> 1" by (simp add: w_def)
  qed
qed

lemma rel_err_add_same_sign:
  assumes "rel_err k a' a" "rel_err k b' b" "0 \<le> a \<and> 0 \<le> b \<or> a \<le> 0 \<and> b \<le> 0"
  shows "rel_err k (a' + b') (a + b)"
proof (cases "0 \<le> a \<and> 0 \<le> b")
  case True
  then show ?thesis using assms(1,2) by (simp add: rel_err_add_nonneg)
next
  case False
  then have n: "0 \<le> - a" "0 \<le> - b" using assms(3) by auto
  have "rel_err k (- a' + - b') (- a + - b)"
    using assms(1,2) n by (intro rel_err_add_nonneg rel_err_minus)
  then have "rel_err k (- (- a' + - b')) (- (- a + - b))" by (rule rel_err_minus)
  moreover have "- (- a' + - b') = a' + b'" "- (- a + - b) = a + b" by simp_all
  ultimately show ?thesis by (simp only:)
qed

lemma rel_err_sqrt:
  assumes "rel_err k y x"
  shows "rel_err k (sqrt y) (sqrt x)"
proof -
  from assms obtain r where r: "y = r * x" "below1 ^ k \<le> r"
    "r * below1 ^ k \<le> 1" "0 < r" by (rule rel_errE)
  define w where "w = below1 ^ k"
  have w: "0 < w" "w \<le> 1" unfolding w_def by (rule w_pow)+
  have s: "0 < sqrt r" using r(4) by simp
  show ?thesis
  proof (rule rel_errI [of _ "sqrt r"])
    show "sqrt y = sqrt r * sqrt x" by (simp add: r(1) real_sqrt_mult)
    have "w * w \<le> 1 * w" using w by (intro mult_right_mono) simp_all
    moreover have "w \<le> r" using r(2) by (simp add: w_def)
    ultimately have "w * w \<le> r" by linarith
    then have "sqrt (w * w) \<le> sqrt r" by (simp only: real_sqrt_le_iff)
    then show "below1 ^ k \<le> sqrt r" using w by (simp add: w_def)
    have "r * (w * w) \<le> 1 * w" using r(3) w by (simp add: w_def mult_ac mult_left_le)
    then have "r * (w * w) \<le> 1" using w by linarith
    then have "sqrt (r * (w * w)) \<le> sqrt 1" by (simp only: real_sqrt_le_iff)
    then show "sqrt r * below1 ^ k \<le> 1"
      using w by (simp add: real_sqrt_mult w_def)
  qed
qed

lemma rel_err_inverse:
  assumes "rel_err k y x"
  shows "rel_err k (1 / y) (1 / x)"
proof -
  from assms obtain r where r: "y = r * x" "below1 ^ k \<le> r"
    "r * below1 ^ k \<le> 1" "0 < r" by (rule rel_errE)
  define w where "w = below1 ^ k"
  have w: "0 < w" unfolding w_def by (rule w_pow)
  show ?thesis
  proof (rule rel_errI [of _ "1 / r"])
    show "1 / y = 1 / r * (1 / x)" by (simp add: r(1))
    show "below1 ^ k \<le> 1 / r"
      using r(3,4) by (simp add: pos_le_divide_eq mult.commute)
    show "1 / r * below1 ^ k \<le> 1"
      using r(2,4) by (simp add: pos_divide_le_eq)
  qed
qed

lemma rel_err_zero_iff: "rel_err k y x \<Longrightarrow> y = 0 \<longleftrightarrow> x = 0"
  by (erule rel_errE) simp

lemma rel_err_bound:
  assumes "rel_err 26 y x"
  shows "\<bar>y - x\<bar> \<le> 27 / 2 ^ 53 * \<bar>x\<bar>"
proof -
  from assms obtain r where r: "y = r * x" "below1 ^ 26 \<le> r"
    "r * below1 ^ 26 \<le> 1" "0 < r" by (rule rel_errE)
  have b: "1 + of_nat 26 * (- (1 / 2 ^ 53)) \<le> (1 + (- (1 / 2 ^ 53)) :: real) ^ 26"
    by (rule Bernoulli_inequality) simp
  moreover have "(1 + (- (1 / 2 ^ 53)) :: real) = below1" by (simp add: below1_def)
  ultimately have lo: "1 - 26 / 2 ^ 53 \<le> below1 ^ 26" by (simp del: power_numeral)
  have r1: "1 - 26 / 2 ^ 53 \<le> r" using lo r(2) by linarith
  have "r * (1 - 26 / 2 ^ 53) \<le> r * below1 ^ 26"
    using lo r(4) by (intro mult_left_mono) simp_all
  then have "r * (1 - 26 / 2 ^ 53) \<le> 1" using r(3) by linarith
  then have r2: "r \<le> 1 + 27 / 2 ^ 53" by (simp add: field_simps)
  have "\<bar>r - 1\<bar> \<le> 27 / 2 ^ 53" using r1 r2 by linarith
  then have "\<bar>r - 1\<bar> * \<bar>x\<bar> \<le> 27 / 2 ^ 53 * \<bar>x\<bar>" by (intro mult_right_mono) simp_all
  moreover have "y - x = (r - 1) * x" by (simp add: r(1) algebra_simps)
  ultimately show ?thesis by (simp add: abs_mult)
qed

lemma exchange_component:
  assumes "rel_err 26 S (2 * v)"
  shows "\<bar>fl (v - S) + v\<bar> \<le> \<bar>v\<bar> / 2 ^ 47"
proof -
  define A where "A = \<bar>fl (v - S) - (v - S)\<bar>"
  define B where "B = \<bar>S - 2 * v\<bar>"
  define Z where "Z = \<bar>v - S\<bar>"
  define V where "V = \<bar>v\<bar>"
  define T where "T = \<bar>fl (v - S) + v\<bar>"
  have "B \<le> 27 / 2 ^ 53 * \<bar>2 * v\<bar>" unfolding B_def using assms by (rule rel_err_bound)
  moreover have "\<bar>2 * v\<bar> = 2 * V" by (simp add: abs_mult V_def)
  ultimately have b: "B \<le> 54 / 2 ^ 53 * V" by simp
  have a: "A \<le> Z / 2 ^ 53" unfolding A_def Z_def by (rule fl_error)
  have z: "Z \<le> V + B" unfolding Z_def V_def B_def by linarith
  have t: "T \<le> A + B" unfolding T_def A_def B_def by linarith
  have v: "0 \<le> V" by (simp add: V_def)
  have "T \<le> V / 2 ^ 47" using a b z t v by simp
  then show ?thesis by (simp only: T_def V_def)
qed

lemma rel_err_square:
  assumes "rel_err (Suc 0) a x"
  shows "rel_err 3 (fl (a * a)) (x * x)"
proof -
  have "rel_err (Suc 0 + Suc 0) (a * a) (x * x)" using assms assms by (rule rel_err_mult)
  then show ?thesis by (rule rel_err_flS) simp
qed

lemma rel_err_length:
  assumes "rel_err (Suc 0) a x" "rel_err (Suc 0) b y" "rel_err (Suc 0) c z"
  shows "rel_err 6 (fl (sqrt (fl (fl (fl (a * a) + fl (b * b)) + fl (c * c)))))
           (sqrt (x * x + y * y + z * z))"
proof -
  have 1: "rel_err 3 (fl (a * a) + fl (b * b)) (x * x + y * y)"
    using assms(1,2) by (intro rel_err_add_nonneg rel_err_square) simp_all
  have 2: "rel_err 4 (fl (fl (a * a) + fl (b * b))) (x * x + y * y)"
    using 1 by (rule rel_err_flS) simp
  have 3: "rel_err 4 (fl (c * c)) (z * z)"
    using rel_err_square [OF assms(3)] by (rule rel_err_mono) simp
  have 4: "rel_err 4 (fl (fl (a * a) + fl (b * b)) + fl (c * c)) (x * x + y * y + z * z)"
    using 2 3 by (rule rel_err_add_nonneg) simp_all
  have 5: "rel_err 5 (fl (fl (fl (a * a) + fl (b * b)) + fl (c * c))) (x * x + y * y + z * z)"
    using 4 by (rule rel_err_flS) simp
  have 6: "rel_err 5 (sqrt (fl (fl (fl (a * a) + fl (b * b)) + fl (c * c))))
      (sqrt (x * x + y * y + z * z))"
    using 5 by (rule rel_err_sqrt)
  show ?thesis using 6 by (rule rel_err_flS) simp
qed

lemma rel_err_normal:
  assumes "rel_err (Suc 0) a x" "rel_err 6 l L"
  shows "rel_err 9 (fl (a * fl (1 / l))) (x * (1 / L))"
proof -
  have 1: "rel_err 6 (1 / l) (1 / L)" using assms(2) by (rule rel_err_inverse)
  have 2: "rel_err 7 (fl (1 / l)) (1 / L)" using 1 by (rule rel_err_flS) simp
  have 3: "rel_err (Suc 0 + 7) (a * fl (1 / l)) (x * (1 / L))" using assms(1) 2 by (rule rel_err_mult)
  show ?thesis using 3 by (rule rel_err_flS) simp
qed

lemma rel_err_term:
  assumes "rel_err 9 n (x * (1 / L))"
  shows "rel_err 10 (fl (x * s * n)) (s * (x * x) / L)"
proof -
  have e: "x * s * (x * (1 / L)) = s * (x * x) / L" by simp
  have "rel_err 9 (x * s * n) (x * s * (x * (1 / L)))" using assms by (rule rel_err_cmult)
  then have "rel_err 10 (fl (x * s * n)) (x * s * (x * (1 / L)))" by (rule rel_err_flS) simp
  then show ?thesis by (simp only: e)
qed

lemma same_sign_terms:
  fixes s L :: real
  assumes "0 < L" "0 \<le> p" "0 \<le> q"
  shows "0 \<le> s * p / L \<and> 0 \<le> s * q / L \<or> s * p / L \<le> 0 \<and> s * q / L \<le> 0"
proof (cases "0 \<le> s")
  case True
  then show ?thesis using assms by simp
next
  case False
  then have "s \<le> 0" by simp
  then have "s * p / L \<le> 0" "s * q / L \<le> 0"
    using assms by (simp_all add: divide_le_0_iff mult_le_0_iff)
  then show ?thesis by simp
qed

lemma rel_err_dot:
  assumes "rel_err 9 nx (x * (1 / L))" "rel_err 9 ny (y * (1 / L))" "rel_err 9 nz (z * (1 / L))"
    and "0 < L" "L * L = x * x + y * y + z * z"
  shows "rel_err 12 (fl (fl (fl (x * s * nx) + fl (y * s * ny)) + fl (z * s * nz))) (s * L)"
proof -
  have 1: "rel_err 10 (fl (x * s * nx) + fl (y * s * ny)) (s * (x * x) / L + s * (y * y) / L)"
    using assms(1,2) same_sign_terms [OF assms(4), of "x * x" "y * y" s]
    by (intro rel_err_add_same_sign rel_err_term) simp_all
  have e1: "s * (x * x) / L + s * (y * y) / L = s * (x * x + y * y) / L"
    by (simp add: distrib_left add_divide_distrib)
  have "rel_err 11 (fl (fl (x * s * nx) + fl (y * s * ny))) (s * (x * x) / L + s * (y * y) / L)"
    using 1 by (rule rel_err_flS) simp
  then have 2: "rel_err 11 (fl (fl (x * s * nx) + fl (y * s * ny))) (s * (x * x + y * y) / L)"
    by (simp only: e1)
  have 3: "rel_err 11 (fl (z * s * nz)) (s * (z * z) / L)"
    using rel_err_term [OF assms(3)] by (rule rel_err_mono) simp
  have 4: "rel_err 11 (fl (fl (x * s * nx) + fl (y * s * ny)) + fl (z * s * nz))
      (s * (x * x + y * y) / L + s * (z * z) / L)"
    using 2 3 same_sign_terms [OF assms(4), of "x * x + y * y" "z * z" s]
    by (intro rel_err_add_same_sign) simp_all
  have "s * (x * x + y * y) / L + s * (z * z) / L = s * (L * L) / L"
    by (simp only: assms(5)) (simp add: distrib_left add_divide_distrib)
  also have "\<dots> = s * L" using assms(4) by simp
  finally have 5: "s * (x * x + y * y) / L + s * (z * z) / L = s * L" .
  have "rel_err 12 (fl (fl (fl (x * s * nx) + fl (y * s * ny)) + fl (z * s * nz)))
      (s * (x * x + y * y) / L + s * (z * z) / L)"
    using 4 by (rule rel_err_flS) simp
  then show ?thesis by (simp only: 5)
qed

lemma rel_err_impulse:
  assumes "rel_err 12 a (s * L)" "rel_err 9 n (x * (1 / L))" "0 < L"
  shows "rel_err 26 (fl (n * fl (fl (fl (2 * fl (a - - a)) / 2) * 1))) (2 * (x * s))"
proof -
  have e0: "a - - a = 2 * a" by simp
  have "rel_err 12 (2 * a) (2 * (s * L))" using assms(1) by (rule rel_err_cmult)
  then have "rel_err 13 (fl (2 * a)) (2 * (s * L))" by (rule rel_err_flS) simp
  then have 1: "rel_err 13 (fl (a - - a)) (2 * (s * L))" by (simp only: e0)
  have "rel_err 13 (2 * fl (a - - a)) (2 * (2 * (s * L)))" using 1 by (rule rel_err_cmult)
  then have 2: "rel_err 14 (fl (2 * fl (a - - a))) (2 * (2 * (s * L)))" by (rule rel_err_flS) simp
  have e2: "1 / 2 * fl (2 * fl (a - - a)) = fl (2 * fl (a - - a)) / 2"
    "1 / 2 * (2 * (2 * (s * L))) = 2 * (s * L)" by simp_all
  have "rel_err 14 (1 / 2 * fl (2 * fl (a - - a))) (1 / 2 * (2 * (2 * (s * L))))"
    using 2 by (rule rel_err_cmult)
  then have "rel_err 14 (fl (2 * fl (a - - a)) / 2) (2 * (s * L))" by (simp only: e2)
  then have 3: "rel_err 15 (fl (fl (2 * fl (a - - a)) / 2)) (2 * (s * L))" by (rule rel_err_flS) simp
  have e3: "fl (fl (2 * fl (a - - a)) / 2) * 1 = fl (fl (2 * fl (a - - a)) / 2)" by simp
  have "rel_err 16 (fl (fl (fl (2 * fl (a - - a)) / 2))) (2 * (s * L))"
    using 3 by (rule rel_err_flS) simp
  then have 4: "rel_err 16 (fl (fl (fl (2 * fl (a - - a)) / 2) * 1)) (2 * (s * L))" by (simp only: e3)
  have 5: "rel_err (9 + 16) (n * fl (fl (fl (2 * fl (a - - a)) / 2) * 1)) (x * (1 / L) * (2 * (s * L)))"
    using assms(2) 4 by (rule rel_err_mult)
  have e5: "x * (1 / L) * (2 * (s * L)) = 2 * (x * s)" using assms(3) by simp
  have "rel_err 26 (fl (n * fl (fl (fl (2 * fl (a - - a)) / 2) * 1))) (x * (1 / L) * (2 * (s * L)))"
    using 5 by (rule rel_err_flS) simp
  then show ?thesis by (simp only: e5)
qed

lemma fl_pair_drift:
  "\<bar>(fl (a - S) + fl (b + S)) - (a + b)\<bar> \<le> (\<bar>fl (a - S)\<bar> + \<bar>fl (b + S)\<bar>) / 2 ^ 53"
proof -
  have 1: "\<bar>fl (a - S) - (a - S)\<bar> \<le> \<bar>fl (a - S)\<bar> / 2 ^ 53" by (rule fl_error_result)
  have 2: "\<bar>fl (b + S) - (b + S)\<bar> \<le> \<bar>fl (b + S)\<bar> / 2 ^ 53" by (rule fl_error_result)
  have "\<bar>(fl (a - S) + fl (b + S)) - (a + b)\<bar>
      \<le> \<bar>fl (a - S) - (a - S)\<bar> + \<bar>fl (b + S) - (b + S)\<bar>" by linarith
  then show ?thesis using 1 2 by (simp add: add_divide_distrib)
qed

subsection \<open>The clock\<close>

lemma tick_fields [simp]:
  "balls (tick dt st) = balls st" "velocity (tick dt st) = velocity st"
  "trace (tick dt st) = trace st" "previousSec (tick dt st) = previousSec st"
  "currentTime (tick dt st) = currentTime st + round_js (fl (dt * 1000))"
  "currentSecond (tick dt st) = \<lfloor>rem_js (of_int (currentTime st + round_js (fl (dt * 1000))) / 1000) 60\<rfloor>"
  by (simp_all add: tick_def Let_def)

lemma wellFormed_tick [simp]: "wellFormed (tick dt st) = wellFormed st"
  by (simp add: wellFormed_def)

lemma onPlane_tick [simp]: "onPlane (tick dt st) = onPlane st"
  by (simp add: onPlane_def)

lemma tick_cushion: "tick (1/10) cushionState = cushionState\<lparr>currentTime := 1000100\<rparr>"
  by (simp add: tick_def fl_frames round_js_def rem_js_def trunc_js_def cushionState_def)

lemma tick_sample: "tick (1 / 100) sampleState = sampleState\<lparr>currentTime := 1000010\<rparr>"
  by (simp add: tick_def fl_frames round_js_def rem_js_def trunc_js_def sampleState_def)

lemma second_of_time:
  assumes "0 \<le> t"
  shows "\<lfloor>rem_js (of_int t / 1000) 60\<rfloor> = (t div 1000) mod 60"
proof -
  have a: "(0::real) \<le> of_int t / 60000" using assms by simp
  have "\<lfloor>(of_int t :: real) / of_int 60000\<rfloor> = t div 60000"
    by (rule floor_divide_of_int_eq)
  then have tr: "trunc_js (of_int t / 60000) = t div 60000"
    using a by (simp add: trunc_js_def)
  have f: "\<lfloor>(of_int t :: real) / of_int 1000\<rfloor> = t div 1000"
    by (rule floor_divide_of_int_eq)
  have "\<lfloor>rem_js (of_int t / 1000) 60\<rfloor> = \<lfloor>(of_int t :: real) / 1000 - of_int (60 * (t div 60000))\<rfloor>"
    by (simp add: rem_js_def tr)
  also have "\<dots> = \<lfloor>(of_int t :: real) / 1000\<rfloor> - 60 * (t div 60000)"
    by (rule floor_diff_of_int)
  also have "\<dots> = t div 1000 - 60 * (t div 60000)"
    using f by simp
  also have "\<dots> = t div 1000 - 60 * ((t div 1000) div 60)"
    using zdiv_zmult2_eq [of 60 t 1000] by simp
  also have "\<dots> = (t div 1000) mod 60"
    by (simp add: minus_mult_div_eq_mod)
  finally show ?thesis .
qed

lemma round_js_bounds:
  assumes "0 \<le> dt" "dt \<le> 0.15"
  shows "0 \<le> round_js (fl (dt * 1000)) \<and> round_js (fl (dt * 1000)) \<le> 150"
proof -
  have "0 \<le> fl (dt * 1000)" using assms(1) by (intro fl_nonneg) simp
  then have "0 \<le> fl (dt * 1000) + 1 / 2" by simp
  then have lo: "0 \<le> round_js (fl (dt * 1000))" by (simp add: round_js_def)
  have "dt * 1000 \<le> of_int 150" using assms(2) by simp
  then have "fl (dt * 1000) \<le> of_int 150" by (rule fl_le_int) simp_all
  then have "fl (dt * 1000) + 1 / 2 < of_int 151" by simp
  then have "\<lfloor>fl (dt * 1000) + 1 / 2\<rfloor> < 151" by (simp only: floor_less_iff)
  then have "round_js (fl (dt * 1000)) \<le> 150" by (simp add: round_js_def)
  with lo show ?thesis by simp
qed

lemma next_second_differs: "((q::int) + 1) mod 60 \<noteq> q mod 60"
proof
  assume "(q + 1) mod 60 = q mod 60"
  then have "(q + 1 - q) mod 60 = 0" by (simp only: mod_eq_0_iff_dvd mod_eq_dvd_iff)
  then show False by simp
qed

lemma second_step:
  fixes t r :: int
  assumes "0 \<le> r" "r \<le> 150"
  shows "(if ((t + r) div 1000) mod 60 \<noteq> (t div 1000) mod 60 then 1 else 0)
           = (t + r) div 1000 - t div 1000"
proof -
  have lo: "t div 1000 \<le> (t + r) div 1000"
    using assms(1) by (intro zdiv_mono1) simp_all
  have "(t + r) div 1000 \<le> (t + 1000) div 1000"
    using assms(2) by (intro zdiv_mono1) simp_all
  then have hi: "(t + r) div 1000 \<le> t div 1000 + 1" by simp
  from lo hi consider "(t + r) div 1000 = t div 1000" | "(t + r) div 1000 = t div 1000 + 1"
    by linarith
  then show ?thesis
  proof cases
    case 1
    then show ?thesis by simp
  next
    case 2
    then show ?thesis by (simp add: next_second_differs)
  qed
qed

subsection \<open>Lists and traces\<close>

lemma set_update1:
  assumes "\<forall>v \<in> set xs. P v" "P a"
  shows "\<forall>v \<in> set (xs[i := a]). P v"
  using assms set_update_subset_insert [of xs i a] by auto

lemma set_update2:
  assumes "\<forall>v \<in> set xs. P v" "P a" "P b"
  shows "\<forall>v \<in> set (xs[i := a, j := b]). P v"
  by (intro set_update1 assms)

lemma count_list_distinct: "distinct xs \<Longrightarrow> count_list xs x = (if x \<in> set xs then 1 else 0)"
  by (induction xs) auto

lemma count_Collision_turn:
  "count_list (map (Collision i) (filter P [0..<8])) (Collision a b)
     = (if a = i \<and> b < 8 \<and> P b then 1 else 0)"
proof -
  have "distinct (map (Collision i) (filter P [0..<8]))"
    by (simp add: distinct_map inj_on_def)
  then show ?thesis
    by (simp only: count_list_distinct) auto
qed

lemma count_Friction_turn [simp]:
  "count_list (map (Collision i) js) (Friction k) = 0"
  by (induction js) simp_all

lemma count_Collision_tick [simp]:
  "count_list (map Friction js) (Collision a b) = 0"
  by (induction js) simp_all

lemma count_Friction_tick:
  "count_list (map Friction [0..<8]) (Friction k) = (if k < 8 then 1 else 0)"
proof -
  have "distinct (map Friction [0..<8])"
    by (simp add: distinct_map inj_on_def)
  then show ?thesis
    by (simp only: count_list_distinct) auto
qed

section \<open>What each operation does to the state\<close>

lemma collide_far:
  assumes "ID < length (balls st)" "i < length (balls st)"
    "\<not> (i \<noteq> ID \<and> distanceTo (position (balls st ! ID)) (position (balls st ! i)) < 2 / 5)"
  shows "collide ID i st = Some st"
  using assms by (auto simp add: collide_def)

lemma collide_near:
  assumes "ID < length (balls st)" "i < length (balls st)"
    "ID < length (velocity st)" "i < length (velocity st)" "i \<noteq> ID"
    "distanceTo (position (balls st ! ID)) (position (balls st ! i)) < 2 / 5"
    "normalize3 (subVectors (position (balls st ! i)) (position (balls st ! ID))) = Some n"
  shows "collide ID i st = Some
    (st\<lparr>velocity := (velocity st)
            [ID := subVectors (velocity st ! ID)
                     (multiplyScalar n (dot (velocity st ! ID) n - dot (velocity st ! i) n)),
             i := addVectors (velocity st ! i)
                     (multiplyScalar n (dot (velocity st ! ID) n - dot (velocity st ! i) n))],
          trace := trace st @ [Collision ID i]\<rparr>)"
  using assms by (simp add: collide_def divide_js_def Let_def diff_divide_distrib)

lemma render_loop_large: "0.15 < dt \<Longrightarrow> render_loop dt js st = Some st"
  by (cases js) simp_all

lemma onVelocity_Some:
  "i < length (velocity st) \<Longrightarrow>
     onVelocity i f st = Some (st\<lparr>velocity := (velocity st)[i := f (velocity st ! i)]\<rparr>)"
  by (simp add: onVelocity_def)

lemma boundary_effect:
  assumes "i < length (balls st)" "i < length (velocity st)"
  shows "\<exists>w. boundary i st = Some (st\<lparr>velocity := (velocity st)[i := w]\<rparr>)
      \<and> length3 w \<le> length3 (velocity st ! i)
      \<and> (24 / 5 < vx (position (balls st ! i)) \<longrightarrow> vx w \<le> 0)
      \<and> (vx (position (balls st ! i)) < - (24 / 5) \<longrightarrow> 0 \<le> vx w)
      \<and> (23 / 10 < vy (position (balls st ! i)) \<longrightarrow> vy w \<le> 0)
      \<and> (vy (position (balls st ! i)) < - (23 / 10) \<longrightarrow> 0 \<le> vy w)
      \<and> (vz (velocity st ! i) = 0 \<longrightarrow> vz w = 0)"
proof -
  define v where "v = velocity st ! i"
  define p where "p = position (balls st ! i)"
  define u where "u = (if 24 / 5 < vx p then multiplyScalar (v\<lparr>vx := - \<bar>vx v\<bar>\<rparr>) rollFric
                      else if vx p < - (24 / 5) then multiplyScalar (v\<lparr>vx := \<bar>vx v\<bar>\<rparr>) rollFric
                      else v)"
  define w where "w = (if 23 / 10 < vy p then multiplyScalar (u\<lparr>vy := - \<bar>vy u\<bar>\<rparr>) rollFric
                      else if vy p < - (23 / 10) then multiplyScalar (u\<lparr>vy := \<bar>vy u\<bar>\<rparr>) rollFric
                      else u)"
  have same: "st\<lparr>velocity := (velocity st)[i := v]\<rparr> = st"
    by (simp add: v_def)
  have b: "boundary i st = Some (st\<lparr>velocity := (velocity st)[i := w]\<rparr>)"
    using assms
    by (simp add: boundary_def onVelocity_Some
        w_def u_def p_def [symmetric] v_def [symmetric] same)
  have lu: "length3 u \<le> length3 v"
    by (simp add: u_def roll_flip_x)
  have "length3 w \<le> length3 u"
    by (simp add: w_def roll_flip_y)
  with lu have lw: "length3 w \<le> length3 v" by simp
  have xu: "(24 / 5 < vx p \<longrightarrow> vx u \<le> 0) \<and> (vx p < - (24 / 5) \<longrightarrow> 0 \<le> vx u)"
    by (simp add: u_def multiplyScalar_def rollFric_def)
  have xw: "(vx u \<le> 0 \<longrightarrow> vx w \<le> 0) \<and> (0 \<le> vx u \<longrightarrow> 0 \<le> vx w)"
    by (simp add: w_def multiplyScalar_def rollFric_def mult_le_0_iff)
  have yw: "(23 / 10 < vy p \<longrightarrow> vy w \<le> 0) \<and> (vy p < - (23 / 10) \<longrightarrow> 0 \<le> vy w)"
    by (simp add: w_def multiplyScalar_def rollFric_def)
  have zw: "vz v = 0 \<longrightarrow> vz w = 0"
    by (simp add: w_def u_def multiplyScalar_def)
  show ?thesis
    using b lw xu xw yw zw unfolding v_def p_def by blast
qed

lemma onPlane_position: "onPlane st \<Longrightarrow> i < length (balls st) \<Longrightarrow> vz (position (balls st ! i)) = 9 / 20"
  by (simp add: onPlane_def)

lemma onPlane_velocity: "onPlane st \<Longrightarrow> i < length (velocity st) \<Longrightarrow> vz (velocity st ! i) = 0"
  by (simp add: onPlane_def)

lemma collide_effect:
  assumes "ID < length (balls st)" "i < length (balls st)"
    and "ID < length (velocity st)" "i < length (velocity st)"
  shows "\<exists>vs. collide ID i st =
           Some (st\<lparr>velocity := vs,
                   trace := trace st @
                     (if i \<noteq> ID \<and> distanceTo (position (balls st ! ID)) (position (balls st ! i)) < 2 / 5
                      then [Collision ID i] else [])\<rparr>)
         \<and> length vs = length (velocity st)
         \<and> (onPlane st \<longrightarrow> (\<forall>v \<in> set vs. vz v = 0))"
proof (cases "i \<noteq> ID \<and> distanceTo (position (balls st ! ID)) (position (balls st ! i)) < 2 / 5")
  case False
  then have "collide ID i st = Some (st\<lparr>velocity := velocity st, trace := trace st @ []\<rparr>)"
    using assms by (simp add: collide_far)
  moreover have "onPlane st \<longrightarrow> (\<forall>v \<in> set (velocity st). vz v = 0)"
    by (simp add: onPlane_def)
  ultimately show ?thesis using False
    by (intro exI [of _ "velocity st"]) (simp only: if_False simp_thms)
next
  case True
  define d where "d = subVectors (position (balls st ! i)) (position (balls st ! ID))"
  obtain n where n: "normalize3 d = Some n" and nz: "vz n = vz d * (1 / (if length3 d = 0 then 1 else length3 d))"
    by (simp add: normalize3_Some multiplyScalar_def)
  let ?s = "multiplyScalar n (dot (velocity st ! ID) n - dot (velocity st ! i) n)"
  let ?vs = "(velocity st)[ID := subVectors (velocity st ! ID) ?s, i := addVectors (velocity st ! i) ?s]"
  have c: "collide ID i st = Some (st\<lparr>velocity := ?vs, trace := trace st @ [Collision ID i]\<rparr>)"
    using collide_near [OF assms _ _ n [unfolded d_def]] True by simp
  have "onPlane st \<longrightarrow> (\<forall>v \<in> set ?vs. vz v = 0)"
  proof (rule impI, rule set_update2)
    assume p: "onPlane st"
    show "\<forall>v\<in>set (velocity st). vz v = 0" using p by (simp add: onPlane_def)
    have "vz d = 0"
      using p assms(1,2) by (simp add: d_def subVectors_def onPlane_position)
    then have s0: "vz ?s = 0" by (simp add: nz multiplyScalar_def)
    have "vz (velocity st ! ID) = 0" "vz (velocity st ! i) = 0"
      using p assms(3,4) by (simp_all add: onPlane_velocity)
    then show "vz (subVectors (velocity st ! ID) ?s) = 0" "vz (addVectors (velocity st ! i) ?s) = 0"
      using s0 by (simp_all add: subVectors_def addVectors_def)
  qed
  then show ?thesis using c True assms(3,4)
    by (intro exI [of _ ?vs]) (simp only: if_True simp_thms length_list_update)
qed

lemma onPlane_velocity_update:
  "onPlane st \<Longrightarrow> \<forall>v \<in> set vs. vz v = 0 \<Longrightarrow> onPlane (st\<lparr>velocity := vs, trace := t\<rparr>)"
  by (simp add: onPlane_def)

lemma collisionVel_loop_effect:
  assumes "ID < length (balls st)" "ID < length (velocity st)"
    and "\<forall>j \<in> set js. j < length (balls st) \<and> j < length (velocity st)"
  shows "\<exists>vs. collisionVel_loop ID js st =
           Some (st\<lparr>velocity := vs,
                   trace := trace st @ map (Collision ID)
                     (filter (\<lambda>j. j \<noteq> ID \<and>
                        distanceTo (position (balls st ! ID)) (position (balls st ! j)) < 2 / 5) js)\<rparr>)
         \<and> length vs = length (velocity st)
         \<and> (onPlane st \<longrightarrow> (\<forall>v \<in> set vs. vz v = 0))"
  using assms
proof (induction js arbitrary: st)
  case Nil
  have "onPlane st \<longrightarrow> (\<forall>v \<in> set (velocity st). vz v = 0)"
    by (simp add: onPlane_def)
  then show ?case
    by (intro exI [of _ "velocity st"]) simp
next
  case (Cons j js)
  let ?P = "\<lambda>s k. k \<noteq> ID \<and> distanceTo (position (balls s ! ID)) (position (balls s ! k)) < 2 / 5"
  from Cons.prems have j: "j < length (balls st)" "j < length (velocity st)" by simp_all
  obtain vs1 where c: "collide ID j st =
      Some (st\<lparr>velocity := vs1, trace := trace st @ (if ?P st j then [Collision ID j] else [])\<rparr>)"
    and l1: "length vs1 = length (velocity st)"
    and p1: "onPlane st \<longrightarrow> (\<forall>v \<in> set vs1. vz v = 0)"
    using collide_effect [OF Cons.prems(1) j(1) Cons.prems(2) j(2)] by blast
  define st1 where "st1 = st\<lparr>velocity := vs1, trace := trace st @ (if ?P st j then [Collision ID j] else [])\<rparr>"
  have b1: "balls st1 = balls st" and v1: "velocity st1 = vs1"
    and t1: "trace st1 = trace st @ (if ?P st j then [Collision ID j] else [])"
    by (simp_all add: st1_def)
  have "ID < length (balls st1)" "ID < length (velocity st1)"
    "\<forall>k \<in> set js. k < length (balls st1) \<and> k < length (velocity st1)"
    using Cons.prems by (simp_all add: b1 v1 l1)
  from Cons.IH [OF this] obtain vs2 where
    r: "collisionVel_loop ID js st1 =
      Some (st1\<lparr>velocity := vs2, trace := trace st1 @ map (Collision ID) (filter (?P st1) js)\<rparr>)"
    and l2: "length vs2 = length (velocity st1)"
    and p2: "onPlane st1 \<longrightarrow> (\<forall>v \<in> set vs2. vz v = 0)"
    by blast
  have o1: "onPlane st \<Longrightarrow> onPlane st1"
    using p1 unfolding st1_def by (intro onPlane_velocity_update) simp_all
  have "collisionVel_loop ID (j # js) st =
      Some (st\<lparr>velocity := vs2, trace := trace st @ map (Collision ID) (filter (?P st) (j # js))\<rparr>)"
    using c r unfolding st1_def [symmetric] by (simp add: b1 t1) (simp add: st1_def)
  moreover have "length vs2 = length (velocity st)"
    by (simp add: l2 v1 l1)
  moreover have "onPlane st \<longrightarrow> (\<forall>v \<in> set vs2. vz v = 0)"
    using o1 p2 by blast
  ultimately show ?case by blast
qed

lemma collisionVel_effect:
  assumes "wellFormed st" "ID < 8"
  shows "\<exists>vs. collisionVel ID st =
           Some (st\<lparr>velocity := vs,
                   trace := trace st @ map (Collision ID)
                     (filter (\<lambda>j. j \<noteq> ID \<and>
                        distanceTo (position (balls st ! ID)) (position (balls st ! j)) < 2 / 5) [0..<8])\<rparr>)
         \<and> length vs = 8
         \<and> (onPlane st \<longrightarrow> (\<forall>v \<in> set vs. vz v = 0))"
  using collisionVel_loop_effect [of ID st "[0..<length (balls st)]"] assms
  by (simp add: collisionVel_def wellFormed_def)

lemma integrate_effect:
  assumes "i < length (balls st)" "i < length (velocity st)"
  shows "\<exists>m. integrate dt i st =
           Some (st\<lparr>balls := (balls st)[i :=
             \<lparr>position = addVectors (position (balls st ! i)) (multiplyScalar (velocity st ! i) dt),
              matrix = m\<rparr>]\<rparr>)"
proof -
  obtain n where n: "normalize3 (cross \<lparr>vx = 0, vy = 0, vz = 1\<rparr> (velocity st ! i)) = Some n"
    by (simp add: normalize3_Some)
  have "integrate dt i st =
           Some (st\<lparr>balls := (balls st)[i :=
             \<lparr>position = addVectors (position (balls st ! i)) (multiplyScalar (velocity st ! i) dt),
              matrix = multiply (setPosition (matrix (balls st ! i))
                  (addVectors (position (balls st ! i)) (multiplyScalar (velocity st ! i) dt)))
                (makeRotationAxis n (length3 (velocity st ! i) / ballRadius defaultSettings * dt))\<rparr>]\<rparr>)"
    using assms by (simp add: integrate_def n divide_js_def Let_def)
  then show ?thesis by blast
qed

lemma friction_loop_effect:
  assumes "\<forall>j \<in> set js. j < length (velocity st)"
  shows "\<exists>vs. friction_loop js st = Some (st\<lparr>velocity := vs, trace := trace st @ map Friction js\<rparr>)
         \<and> length vs = length (velocity st)
         \<and> ((\<forall>v \<in> set (velocity st). vz v = 0) \<longrightarrow> (\<forall>v \<in> set vs. vz v = 0))"
  using assms
proof (induction js arbitrary: st)
  case Nil
  show ?case by (intro exI [of _ "velocity st"]) simp
next
  case (Cons j js)
  from Cons.prems have j: "j < length (velocity st)" by simp
  define w where "w = multiplyScalar (velocity st ! j) rollFric"
  define st1 where "st1 = st\<lparr>velocity := (velocity st)[j := w], trace := trace st @ [Friction j]\<rparr>"
  obtain n where n: "normalize3 (cross \<lparr>vx = 0, vy = 0, vz = 1\<rparr> w) = Some n"
    by (simp add: normalize3_Some)
  have step: "friction_loop (j # js) st = friction_loop js st1"
    using j by (simp add: onVelocity_Some w_def [symmetric] n divide_js_def st1_def)
  have "\<forall>k \<in> set js. k < length (velocity st1)"
    using Cons.prems by (simp add: st1_def)
  from Cons.IH [OF this] obtain vs where
    r: "friction_loop js st1 = Some (st1\<lparr>velocity := vs, trace := trace st1 @ map Friction js\<rparr>)"
    and l: "length vs = length (velocity st1)"
    and z: "(\<forall>v \<in> set (velocity st1). vz v = 0) \<longrightarrow> (\<forall>v \<in> set vs. vz v = 0)"
    by blast
  have "friction_loop (j # js) st = Some (st\<lparr>velocity := vs, trace := trace st @ map Friction (j # js)\<rparr>)"
    by (simp only: step r) (simp add: st1_def)
  moreover have "length vs = length (velocity st)"
    by (simp add: l st1_def)
  moreover have "(\<forall>v \<in> set (velocity st). vz v = 0) \<longrightarrow> (\<forall>v \<in> set vs. vz v = 0)"
  proof
    assume a: "\<forall>v \<in> set (velocity st). vz v = 0"
    then have "vz w = 0" using j by (simp add: w_def multiplyScalar_def)
    with a have "\<forall>v \<in> set ((velocity st)[j := w]). vz v = 0" by (intro set_update1)
    then show "\<forall>v \<in> set vs. vz v = 0" using z by (simp add: st1_def)
  qed
  ultimately show ?case by blast
qed

lemma secondCheck_effect:
  assumes "wellFormed st"
  shows "\<exists>vs. secondCheck st =
           Some (st\<lparr>velocity := vs, previousSec := currentSecond st,
                   trace := trace st @
                     (if currentSecond st \<noteq> previousSec st then map Friction [0..<8] else [])\<rparr>)
         \<and> length vs = 8
         \<and> ((\<forall>v \<in> set (velocity st). vz v = 0) \<longrightarrow> (\<forall>v \<in> set vs. vz v = 0))"
proof (cases "currentSecond st \<noteq> previousSec st")
  case False
  then have "secondCheck st = Some (st\<lparr>velocity := velocity st, previousSec := currentSecond st,
      trace := trace st @ []\<rparr>)"
    by (simp add: secondCheck_def)
  then show ?thesis using False assms
    by (intro exI [of _ "velocity st"]) (simp add: wellFormed_def)
next
  case True
  have "\<forall>j \<in> set [0..<8]. j < length (velocity st)"
    using assms by (simp add: wellFormed_def)
  from friction_loop_effect [OF this] obtain vs where
    r: "friction_loop [0..<8] st = Some (st\<lparr>velocity := vs, trace := trace st @ map Friction [0..<8]\<rparr>)"
    and l: "length vs = length (velocity st)"
    and z: "(\<forall>v \<in> set (velocity st). vz v = 0) \<longrightarrow> (\<forall>v \<in> set vs. vz v = 0)"
    by blast
  have "secondCheck st = Some (st\<lparr>velocity := vs, previousSec := currentSecond st,
      trace := trace st @ map Friction [0..<8]\<rparr>)"
    using True by (simp add: secondCheck_def r)
  then show ?thesis using True l z assms
    by (intro exI [of _ vs]) (simp add: wellFormed_def)
qed

lemma ballStep_effect:
  assumes "wellFormed st" "i < 8"
  shows "\<exists>vs p m. ballStep dt i st =
           Some (st\<lparr>balls := (balls st)[i := \<lparr>position = p, matrix = m\<rparr>],
                   velocity := vs, previousSec := currentSecond st,
                   trace := trace st @ map (Collision i)
                       (filter (\<lambda>j. j \<noteq> i \<and>
                          distanceTo (position (balls st ! i)) (position (balls st ! j)) < 2 / 5) [0..<8])
                     @ (if currentSecond st \<noteq> previousSec st then map Friction [0..<8] else [])\<rparr>)
         \<and> length vs = 8
         \<and> (onPlane st \<longrightarrow> vz p = 9 / 20 \<and> (\<forall>v \<in> set vs. vz v = 0))"
proof -
  let ?es = "map (Collision i) (filter (\<lambda>j. j \<noteq> i \<and>
      distanceTo (position (balls st ! i)) (position (balls st ! j)) < 2 / 5) [0..<8])"
  let ?fs = "if currentSecond st \<noteq> previousSec st then map Friction [0..<8] else []"
  have lb: "length (balls st) = 8" and lv: "length (velocity st) = 8"
    using assms(1) by (simp_all add: wellFormed_def)
  obtain vs1 where c: "collisionVel i st = Some (st\<lparr>velocity := vs1, trace := trace st @ ?es\<rparr>)"
    and l1: "length vs1 = 8" and z1: "onPlane st \<longrightarrow> (\<forall>v \<in> set vs1. vz v = 0)"
    using collisionVel_effect [OF assms] by blast
  define st1 where "st1 = st\<lparr>velocity := vs1, trace := trace st @ ?es\<rparr>"
  define p where "p = addVectors (position (balls st ! i)) (multiplyScalar (vs1 ! i) dt)"
  have i1: "i < length (balls st1)" "i < length (velocity st1)"
    using assms(2) by (simp_all add: st1_def lb l1)
  have p1: "addVectors (position (balls st1 ! i)) (multiplyScalar (velocity st1 ! i) dt) = p"
    by (simp add: p_def st1_def)
  obtain m where g: "integrate dt i st1 =
      Some (st1\<lparr>balls := (balls st1)[i := \<lparr>position = p, matrix = m\<rparr>]\<rparr>)"
    using integrate_effect [OF i1, of dt] unfolding p1 by blast
  define st2 where "st2 = st1\<lparr>balls := (balls st1)[i := \<lparr>position = p, matrix = m\<rparr>]\<rparr>"
  have i2: "i < length (balls st2)" "i < length (velocity st2)"
    using assms(2) by (simp_all add: st2_def st1_def lb l1)
  obtain w where b: "boundary i st2 = Some (st2\<lparr>velocity := (velocity st2)[i := w]\<rparr>)"
    and zw: "vz (velocity st2 ! i) = 0 \<longrightarrow> vz w = 0"
    using boundary_effect [OF i2] by blast
  define st3 where "st3 = st2\<lparr>velocity := (velocity st2)[i := w]\<rparr>"
  have wf3: "wellFormed st3"
    by (simp add: wellFormed_def st3_def st2_def st1_def lb l1)
  obtain vs where f: "secondCheck st3 =
      Some (st3\<lparr>velocity := vs, previousSec := currentSecond st3,
              trace := trace st3 @
                (if currentSecond st3 \<noteq> previousSec st3 then map Friction [0..<8] else [])\<rparr>)"
    and l: "length vs = 8"
    and z: "(\<forall>v \<in> set (velocity st3). vz v = 0) \<longrightarrow> (\<forall>v \<in> set vs. vz v = 0)"
    using secondCheck_effect [OF wf3] by blast
  have R: "ballStep dt i st =
      Some (st\<lparr>balls := (balls st)[i := \<lparr>position = p, matrix = m\<rparr>],
              velocity := vs, previousSec := currentSecond st, trace := trace st @ ?es @ ?fs\<rparr>)"
    unfolding ballStep_def
    by (simp only: c st1_def [symmetric] bind.bind_lunit g st2_def [symmetric] b
        st3_def [symmetric] f)
      (simp add: st3_def st2_def st1_def)
  have Z: "onPlane st \<longrightarrow> vz p = 9 / 20 \<and> (\<forall>v \<in> set vs. vz v = 0)"
  proof
    assume o: "onPlane st"
    then have a: "\<forall>v \<in> set vs1. vz v = 0" using z1 by simp
    then have vi: "vz (vs1 ! i) = 0" using l1 assms(2) by simp
    moreover have "velocity st2 ! i = vs1 ! i" by (simp add: st2_def st1_def)
    ultimately have "vz w = 0" using zw by simp
    with a have "\<forall>v \<in> set (vs1[i := w]). vz v = 0" by (intro set_update1)
    moreover have "velocity st3 = vs1[i := w]" by (simp add: st3_def st2_def st1_def)
    ultimately have "\<forall>v \<in> set (velocity st3). vz v = 0" by (simp only:)
    with z have "\<forall>v \<in> set vs. vz v = 0" by (rule mp)
    moreover have "vz p = 9 / 20"
      using onPlane_position [OF o, of i] vi assms(2) lb
      by (simp add: p_def addVectors_def multiplyScalar_def)
    ultimately show "vz p = 9 / 20 \<and> (\<forall>v \<in> set vs. vz v = 0)" by simp
  qed
  show ?thesis
    by (rule exI [of _ vs], rule exI [of _ p], rule exI [of _ m]) (intro conjI R l Z)
qed

lemma wellFormed_ballStep_result:
  "wellFormed st \<Longrightarrow> length vs = 8 \<Longrightarrow>
   wellFormed (st\<lparr>balls := (balls st)[i := b], velocity := vs, previousSec := s, trace := t\<rparr>)"
  by (simp add: wellFormed_def)

lemma onPlane_ballStep_result:
  "onPlane st \<Longrightarrow> vz p = 9 / 20 \<Longrightarrow> \<forall>v \<in> set vs. vz v = 0 \<Longrightarrow>
   onPlane (st\<lparr>balls := (balls st)[i := \<lparr>position = p, matrix = m\<rparr>], velocity := vs,
              previousSec := s, trace := t\<rparr>)"
  unfolding onPlane_def
  by (auto dest!: subsetD [OF set_update_subset_insert])

lemma render_loop_effect:
  assumes "wellFormed st" "\<not> 0.15 < dt" "\<forall>i \<in> set ks. i < 8"
  shows "\<exists>st' es. render_loop dt ks st = Some st' \<and> wellFormed st'
     \<and> (onPlane st \<longrightarrow> onPlane st')
     \<and> currentTime st' = currentTime st \<and> currentSecond st' = currentSecond st
     \<and> previousSec st' = (if ks = [] then previousSec st else currentSecond st)
     \<and> trace st' = trace st @ es
     \<and> (\<forall>k. count_list es (Friction k)
            = (if ks \<noteq> [] \<and> currentSecond st \<noteq> previousSec st \<and> k < 8 then 1 else 0))
     \<and> (distinct ks \<longrightarrow> (\<forall>a b. count_list es (Collision a b) \<le> (if a \<in> set ks then 1 else 0)))
     \<and> (sorted_wrt (<) ks \<longrightarrow>
          (\<forall>a \<in> set ks. \<forall>b. a < b \<and> b < 8
             \<and> distanceTo (position (balls st ! a)) (position (balls st ! b)) < 2 / 5
             \<longrightarrow> Collision a b \<in> set es))"
  using assms
proof (induction ks arbitrary: st)
  case Nil
  show ?case
    by (rule exI [of _ st], rule exI [of _ "[]"]) (simp add: Nil.prems(1))
next
  case (Cons i ks)
  let ?P = "\<lambda>s a b. distanceTo (position (balls s ! a)) (position (balls s ! b)) < 2 / 5"
  let ?C = "map (Collision i) (filter (\<lambda>j. j \<noteq> i \<and> ?P st i j) [0..<8])"
  let ?F = "if currentSecond st \<noteq> previousSec st then map Friction [0..<8] else []"
  have i: "i < 8" using Cons.prems(3) by simp
  have lb: "length (balls st) = 8" using Cons.prems(1) by (simp add: wellFormed_def)
  obtain vs p m where
    bs: "ballStep dt i st = Some (st\<lparr>balls := (balls st)[i := \<lparr>position = p, matrix = m\<rparr>],
           velocity := vs, previousSec := currentSecond st, trace := trace st @ ?C @ ?F\<rparr>)"
    and l: "length vs = 8"
    and z: "onPlane st \<longrightarrow> vz p = 9 / 20 \<and> (\<forall>v \<in> set vs. vz v = 0)"
    using ballStep_effect [OF Cons.prems(1) i, of dt] by blast
  define st1 where "st1 = st\<lparr>balls := (balls st)[i := \<lparr>position = p, matrix = m\<rparr>],
           velocity := vs, previousSec := currentSecond st, trace := trace st @ ?C @ ?F\<rparr>"
  have wf1: "wellFormed st1"
    unfolding st1_def by (rule wellFormed_ballStep_result [OF Cons.prems(1) l])
  have o1: "onPlane st \<longrightarrow> onPlane st1"
  proof
    assume o: "onPlane st"
    with z have "vz p = 9 / 20" "\<forall>v \<in> set vs. vz v = 0" by simp_all
    then show "onPlane st1"
      unfolding st1_def by (rule onPlane_ballStep_result [OF o])
  qed
  have f1: "currentTime st1 = currentTime st" "currentSecond st1 = currentSecond st"
    "previousSec st1 = currentSecond st" "trace st1 = trace st @ ?C @ ?F"
    by (simp_all add: st1_def)
  have b1: "balls st1 ! k = balls st ! k" if "k \<noteq> i" for k
    using that by (simp add: st1_def)
  have ks: "\<forall>k \<in> set ks. k < 8" using Cons.prems(3) by simp
  from Cons.IH [OF wf1 Cons.prems(2) ks] obtain st' es where
    r: "render_loop dt ks st1 = Some st'" and wf': "wellFormed st'"
    and o': "onPlane st1 \<longrightarrow> onPlane st'"
    and t': "currentTime st' = currentTime st1" "currentSecond st' = currentSecond st1"
    and p': "previousSec st' = (if ks = [] then previousSec st1 else currentSecond st1)"
    and e': "trace st' = trace st1 @ es"
    and c1: "\<forall>k. count_list es (Friction k)
            = (if ks \<noteq> [] \<and> currentSecond st1 \<noteq> previousSec st1 \<and> k < 8 then 1 else 0)"
    and c2: "distinct ks \<longrightarrow> (\<forall>a b. count_list es (Collision a b) \<le> (if a \<in> set ks then 1 else 0))"
    and c3: "sorted_wrt (<) ks \<longrightarrow>
          (\<forall>a \<in> set ks. \<forall>b. a < b \<and> b < 8 \<and> ?P st1 a b \<longrightarrow> Collision a b \<in> set es)"
    by blast
  have R: "render_loop dt (i # ks) st = Some st'"
    by (simp only: render_loop.simps Cons.prems(2) if_False bs st1_def [symmetric]
        bind.bind_lunit r)
  have O: "onPlane st \<longrightarrow> onPlane st'" using o1 o' by blast
  have T: "currentTime st' = currentTime st \<and> currentSecond st' = currentSecond st"
    by (simp add: t' f1)
  have P: "previousSec st' = (if i # ks = [] then previousSec st else currentSecond st)"
    by (simp add: p' f1)
  have E: "trace st' = trace st @ (?C @ ?F @ es)"
    by (simp add: e' f1)
  have es0: "count_list es (Friction k) = 0" for k
    by (simp add: c1 f1)
  have C1: "\<forall>k. count_list (?C @ ?F @ es) (Friction k)
            = (if i # ks \<noteq> [] \<and> currentSecond st \<noteq> previousSec st \<and> k < 8 then 1 else 0)"
    by (simp add: es0 count_Friction_tick)
  have C2: "distinct (i # ks) \<longrightarrow>
      (\<forall>a b. count_list (?C @ ?F @ es) (Collision a b) \<le> (if a \<in> set (i # ks) then 1 else 0))"
  proof (intro impI allI)
    fix a b
    assume d: "distinct (i # ks)"
    then have le: "count_list es (Collision a b) \<le> (if a \<in> set ks then 1 else 0)"
      using c2 by simp
    have f0: "count_list ?F (Collision a b) = 0" by simp
    show "count_list (?C @ ?F @ es) (Collision a b) \<le> (if a \<in> set (i # ks) then 1 else 0)"
    proof (cases "a = i")
      case True
      then have "a \<notin> set ks" using d by simp
      then have "count_list es (Collision a b) = 0" using le by simp
      then show ?thesis using True f0 by (simp add: count_Collision_turn)
    next
      case False
      then have "count_list ?C (Collision a b) = 0" by (simp add: count_Collision_turn)
      then show ?thesis using False f0 le by simp
    qed
  qed
  have C3: "sorted_wrt (<) (i # ks) \<longrightarrow>
          (\<forall>a \<in> set (i # ks). \<forall>b. a < b \<and> b < 8 \<and> ?P st a b \<longrightarrow> Collision a b \<in> set (?C @ ?F @ es))"
  proof (intro impI ballI allI)
    fix a b
    assume s: "sorted_wrt (<) (i # ks)" and a: "a \<in> set (i # ks)"
      and h: "a < b \<and> b < 8 \<and> ?P st a b"
    show "Collision a b \<in> set (?C @ ?F @ es)"
    proof (cases "a = i")
      case True
      then have "Collision a b \<in> set ?C" using h by simp
      then show ?thesis by simp
    next
      case False
      then have ak: "a \<in> set ks" using a by simp
      then have "i < a" using s by simp
      then have "a \<noteq> i" "b \<noteq> i" using h by simp_all
      then have "?P st1 a b" using h by (simp add: b1)
      moreover have "sorted_wrt (<) ks" using s by simp
      ultimately have "Collision a b \<in> set es" using c3 ak h by blast
      then show ?thesis by simp
    qed
  qed
  show ?case
    by (rule exI [of _ st'], rule exI [of _ "?C @ ?F @ es"]) (intro conjI R wf' O T [THEN conjunct1] T [THEN conjunct2] P E C1 C2 C3)
qed

lemma render_effect:
  assumes "wellFormed st" "dt \<le> 0.15"
  shows "\<exists>st' es. render dt st = Some st' \<and> wellFormed st'
     \<and> (onPlane st \<longrightarrow> onPlane st')
     \<and> currentTime st' = currentTime st + round_js (fl (dt * 1000))
     \<and> previousSec st' = currentSecond (tick dt st)
     \<and> trace st' = trace st @ es
     \<and> (\<forall>k. count_list es (Friction k)
            = (if currentSecond (tick dt st) \<noteq> previousSec st \<and> k < 8 then 1 else 0))
     \<and> (\<forall>a b. count_list es (Collision a b) \<le> 1)
     \<and> (\<forall>a b. a < b \<and> b < 8
             \<and> distanceTo (position (balls st ! a)) (position (balls st ! b)) < 2 / 5
             \<longrightarrow> Collision a b \<in> set es)"
proof -
  have w: "wellFormed (tick dt st)" using assms(1) by simp
  have d: "\<not> 0.15 < dt" using assms(2) by simp
  have k: "\<forall>i \<in> set [0..<8]. i < 8" by simp
  from render_loop_effect [OF w d k] obtain st' es where
    r: "render_loop dt [0..<8] (tick dt st) = Some st'" and wf': "wellFormed st'"
    and o: "onPlane (tick dt st) \<longrightarrow> onPlane st'"
    and t: "currentTime st' = currentTime (tick dt st)"
    and p: "previousSec st' = (if [0..<8] = [] then previousSec (tick dt st) else currentSecond (tick dt st))"
    and e: "trace st' = trace (tick dt st) @ es"
    and c1: "\<forall>k. count_list es (Friction k)
            = (if [0..<8] \<noteq> [] \<and> currentSecond (tick dt st) \<noteq> previousSec (tick dt st) \<and> k < 8 then 1 else 0)"
    and c2: "distinct [0..<8] \<longrightarrow> (\<forall>a b. count_list es (Collision a b) \<le> (if a \<in> set [0..<8] then 1 else 0))"
    and c3: "sorted_wrt (<) [0..<8] \<longrightarrow>
          (\<forall>a \<in> set [0..<8]. \<forall>b. a < b \<and> b < 8
             \<and> distanceTo (position (balls (tick dt st) ! a)) (position (balls (tick dt st) ! b)) < 2 / 5
             \<longrightarrow> Collision a b \<in> set es)"
    by blast
  have ne: "[0..<8::nat] \<noteq> []" by simp
  have R: "render dt st = Some st'" by (simp add: render_def r)
  have O: "onPlane st \<longrightarrow> onPlane st'" using o by simp
  have T: "currentTime st' = currentTime st + round_js (fl (dt * 1000))" using t by simp
  have P: "previousSec st' = currentSecond (tick dt st)" using p ne by (simp only: if_False)
  have E: "trace st' = trace st @ es" using e by simp
  have C1: "\<forall>k. count_list es (Friction k)
            = (if currentSecond (tick dt st) \<noteq> previousSec st \<and> k < 8 then 1 else 0)"
    using c1 ne by (simp only: tick_fields simp_thms)
  have C2: "\<forall>a b. count_list es (Collision a b) \<le> 1"
  proof (intro allI)
    fix a b
    have "count_list es (Collision a b) \<le> (if a \<in> set [0..<8] then 1 else 0)"
      using c2 by simp
    then show "count_list es (Collision a b) \<le> 1" by (simp split: if_splits)
  qed
  have C3: "\<forall>a b. a < b \<and> b < 8
             \<and> distanceTo (position (balls st ! a)) (position (balls st ! b)) < 2 / 5
             \<longrightarrow> Collision a b \<in> set es"
  proof (intro allI impI)
    fix a b
    assume h: "a < b \<and> b < 8 \<and> distanceTo (position (balls st ! a)) (position (balls st ! b)) < 2 / 5"
    have s: "sorted_wrt (<) [0..<8::nat]" by (simp add: sorted_wrt_upt)
    have "a \<in> set [0..<8]" using h by simp
    with c3 s h show "Collision a b \<in> set es" unfolding tick_fields by blast
  qed
  show ?thesis
    by (rule exI [of _ st'], rule exI [of _ es]) (intro conjI R wf' O T P E C1 C2 C3)
qed

lemma boost_loop_effect:
  assumes "wellFormed st" "\<forall>i \<in> set ks. i < 8"
  shows "\<exists>st'. boost_loop g ks st = Some st' \<and> wellFormed st' \<and> (onPlane st \<longrightarrow> onPlane st')"
  using assms
proof (induction ks arbitrary: st)
  case Nil
  then show ?case by simp
next
  case (Cons i ks)
  have i: "i < 8" using Cons.prems(2) by simp
  have lb: "length (balls st) = 8" and lv: "length (velocity st) = 8"
    using Cons.prems(1) by (simp_all add: wellFormed_def)
  define w where "w = multiplyScalar (velocity st ! i) (colliFric + colliFric)"
  define st1 where "st1 = st\<lparr>velocity := (velocity st)[i := w]\<rparr>"
  have s1: "onVelocity i (\<lambda>v. multiplyScalar v (colliFric + colliFric)) st = Some st1"
    using i lv by (simp add: onVelocity_Some st1_def w_def)
  define p where "p = addVectors (position (balls st ! i)) (multiplyScalar w (g i))"
  have i1: "i < length (balls st1)" "i < length (velocity st1)"
    using i by (simp_all add: st1_def lb lv)
  have p1: "addVectors (position (balls st1 ! i)) (multiplyScalar (velocity st1 ! i) (g i)) = p"
    using i lv by (simp add: p_def st1_def)
  obtain m where s2: "integrate (g i) i st1 =
      Some (st1\<lparr>balls := (balls st1)[i := \<lparr>position = p, matrix = m\<rparr>]\<rparr>)"
    using integrate_effect [OF i1, of "g i"] unfolding p1 by blast
  define st2 where "st2 = st1\<lparr>balls := (balls st1)[i := \<lparr>position = p, matrix = m\<rparr>]\<rparr>"
  have wf2: "wellFormed st2"
    by (simp add: wellFormed_def st2_def st1_def lb lv)
  have o2: "onPlane st \<longrightarrow> onPlane st2"
  proof
    assume o: "onPlane st"
    have vi: "vz (velocity st ! i) = 0" using o i lv by (simp add: onPlane_velocity)
    then have wz: "vz w = 0" by (simp add: w_def multiplyScalar_def)
    have "vz (position (balls st ! i)) = 9 / 20" using o i lb by (simp add: onPlane_position)
    then have pz: "vz p = 9 / 20" using wz by (simp add: p_def addVectors_def multiplyScalar_def)
    have "\<forall>v \<in> set ((velocity st)[i := w]). vz v = 0"
      using o wz by (intro set_update1) (simp_all add: onPlane_def)
    moreover have "\<forall>b \<in> set ((balls st)[i := \<lparr>position = p, matrix = m\<rparr>]). vz (position b) = 9 / 20"
      using o pz by (intro set_update1) (simp_all add: onPlane_def)
    ultimately show "onPlane st2"
      by (simp add: onPlane_def st2_def st1_def)
  qed
  from Cons.IH [OF wf2] Cons.prems(2) obtain st' where
    r: "boost_loop g ks st2 = Some st'" and w': "wellFormed st'" and o': "onPlane st2 \<longrightarrow> onPlane st'"
    by auto
  have "boost_loop g (i # ks) st = Some st'"
    by (simp only: boost_loop.simps s1 bind.bind_lunit s2 st2_def [symmetric] r)
  then show ?case using w' o2 o' by blast
qed

lemma handle_effect:
  assumes "wellFormed st"
  shows "\<exists>st'. handle x st = Some st' \<and> wellFormed st' \<and> (onPlane st \<longrightarrow> onPlane st')"
proof (cases x)
  case (Frame dt)
  show ?thesis
  proof (cases "dt \<le> 0.15")
    case True
    from render_effect [OF assms True] show ?thesis unfolding Frame handle.simps by blast
  next
    case False
    then have "render dt st = Some (tick dt st)"
      by (simp add: render_def render_loop_large)
    then show ?thesis using assms by (simp add: Frame)
  qed
next
  case (KeyDown keyCode getDelta)
  have "\<forall>i \<in> set [0..<8]. i < 8" by simp
  from boost_loop_effect [OF assms this] show ?thesis
    by (simp add: KeyDown eventHandler_def assms)
qed

lemma run_effect:
  assumes "wellFormed st"
  shows "\<exists>st'. run xs st = Some st' \<and> wellFormed st' \<and> (onPlane st \<longrightarrow> onPlane st')"
  using assms
proof (induction xs arbitrary: st)
  case Nil
  then show ?case by simp
next
  case (Cons x xs)
  from handle_effect [OF Cons.prems] obtain st1 where
    h: "handle x st = Some st1" and w1: "wellFormed st1" and o1: "onPlane st \<longrightarrow> onPlane st1"
    by blast
  from Cons.IH [OF w1] obtain st' where
    r: "run xs st1 = Some st'" and w': "wellFormed st'" and o': "onPlane st1 \<longrightarrow> onPlane st'"
    by blast
  have "run (x # xs) st = Some st'" by (simp add: h r)
  then show ?case using w' o1 o' by blast
qed

lemma frame_decay:
  assumes "wellFormed st" "0 \<le> currentTime st" "previousSec st = (currentTime st div 1000) mod 60"
    and "0 \<le> dt" "dt \<le> 0.15"
  shows "\<exists>st'. render dt st = Some st' \<and> wellFormed st'
     \<and> currentTime st' = currentTime st + round_js (fl (dt * 1000))
     \<and> previousSec st' = (currentTime st' div 1000) mod 60
     \<and> (\<forall>k < 8. int (decays k st')
           = int (decays k st) + (currentTime st' div 1000 - currentTime st div 1000))"
proof -
  define r where "r = round_js (fl (dt * 1000))"
  have rb: "0 \<le> r" "r \<le> 150"
    using round_js_bounds [OF assms(4,5)] by (simp_all add: r_def)
  have "0 \<le> currentTime st + r" using assms(2) rb(1) by simp
  then have "\<lfloor>rem_js (of_int (currentTime st + r) / 1000) 60\<rfloor>
      = ((currentTime st + r) div 1000) mod 60"
    by (rule second_of_time)
  then have sec: "currentSecond (tick dt st) = ((currentTime st + r) div 1000) mod 60"
    by (simp only: tick_fields r_def)
  from render_effect [OF assms(1,5)] obtain st' es where
    R: "render dt st = Some st'" and W: "wellFormed st'"
    and T: "currentTime st' = currentTime st + round_js (fl (dt * 1000))"
    and P: "previousSec st' = currentSecond (tick dt st)"
    and E: "trace st' = trace st @ es"
    and C: "\<forall>k. count_list es (Friction k)
            = (if currentSecond (tick dt st) \<noteq> previousSec st \<and> k < 8 then 1 else 0)"
    by blast
  have P': "previousSec st' = (currentTime st' div 1000) mod 60"
    by (simp only: P sec T r_def)
  have D: "\<forall>k < 8. int (decays k st')
           = int (decays k st) + (currentTime st' div 1000 - currentTime st div 1000)"
  proof (intro allI impI)
    fix k :: nat
    assume k: "k < 8"
    have "int (count_list es (Friction k))
        = (if ((currentTime st + r) div 1000) mod 60 \<noteq> (currentTime st div 1000) mod 60 then 1 else 0)"
      using k by (simp only: C sec assms(3) simp_thms if_True if_False of_nat_0 of_nat_1
          split: if_split) simp
    also have "\<dots> = (currentTime st + r) div 1000 - currentTime st div 1000"
      by (rule second_step [OF rb])
    finally show "int (decays k st')
           = int (decays k st) + (currentTime st' div 1000 - currentTime st div 1000)"
      by (simp add: decays_def E T r_def)
  qed
  show ?thesis by (rule exI [of _ st']) (intro conjI R W T P' D)
qed

lemma frames_decay:
  assumes "wellFormed st" "0 \<le> currentTime st" "previousSec st = (currentTime st div 1000) mod 60"
    and "\<forall>dt \<in> set dts. 0 \<le> dt \<and> dt \<le> 0.15"
  shows "\<exists>st'. run (map Frame dts) st = Some st'
     \<and> currentTime st' = currentTime st + (\<Sum>dt\<leftarrow>dts. round_js (fl (dt * 1000)))
     \<and> (\<forall>k < 8. int (decays k st')
           = int (decays k st) + (currentTime st' div 1000 - currentTime st div 1000))"
  using assms
proof (induction dts arbitrary: st)
  case Nil
  then show ?case by simp
next
  case (Cons dt dts)
  have dt: "0 \<le> dt" "dt \<le> 0.15" using Cons.prems(4) by simp_all
  from frame_decay [OF Cons.prems(1-3) dt] obtain st1 where
    R1: "render dt st = Some st1" and W1: "wellFormed st1"
    and T1: "currentTime st1 = currentTime st + round_js (fl (dt * 1000))"
    and P1: "previousSec st1 = (currentTime st1 div 1000) mod 60"
    and D1: "\<forall>k < 8. int (decays k st1)
           = int (decays k st) + (currentTime st1 div 1000 - currentTime st div 1000)"
    by blast
  have N1: "0 \<le> currentTime st1"
    using Cons.prems(2) round_js_bounds [OF dt] by (simp add: T1)
  have rest: "\<forall>d \<in> set dts. 0 \<le> d \<and> d \<le> 0.15" using Cons.prems(4) by simp
  from Cons.IH [OF W1 N1 P1 rest] obtain st' where
    R: "run (map Frame dts) st1 = Some st'"
    and T: "currentTime st' = currentTime st1 + (\<Sum>d\<leftarrow>dts. round_js (fl (d * 1000)))"
    and D: "\<forall>k < 8. int (decays k st')
           = int (decays k st1) + (currentTime st' div 1000 - currentTime st1 div 1000)"
    by blast
  have "run (map Frame (dt # dts)) st = Some st'" by (simp add: R1 R)
  moreover have "currentTime st' = currentTime st + (\<Sum>d\<leftarrow>dt # dts. round_js (fl (d * 1000)))"
    by (simp add: T T1)
  moreover have "\<forall>k < 8. int (decays k st')
           = int (decays k st) + (currentTime st' div 1000 - currentTime st div 1000)"
    using D D1 by simp
  ultimately show ?case by blast
qed

lemma friction_loop_velocity:
  assumes "friction_loop js st = Some st'" "\<forall>j \<in> set js. j < length (velocity st)" "distinct js"
  shows "length (velocity st') = length (velocity st)
     \<and> (\<forall>k < length (velocity st). velocity st' ! k
           = (if k \<in> set js then multiplyScalar (velocity st ! k) rollFric else velocity st ! k))"
  using assms
proof (induction js arbitrary: st)
  case Nil
  then show ?case by simp
next
  case (Cons j js)
  from Cons.prems(2) have j: "j < length (velocity st)" by simp
  define w where "w = multiplyScalar (velocity st ! j) rollFric"
  define st1 where "st1 = st\<lparr>velocity := (velocity st)[j := w], trace := trace st @ [Friction j]\<rparr>"
  obtain n where n: "normalize3 (cross \<lparr>vx = 0, vy = 0, vz = 1\<rparr> w) = Some n"
    by (simp add: normalize3_Some)
  have step: "friction_loop (j # js) st = friction_loop js st1"
    using j by (simp add: onVelocity_Some w_def [symmetric] n divide_js_def st1_def)
  have r: "friction_loop js st1 = Some st'" using Cons.prems(1) by (simp only: step)
  have in1: "\<forall>k \<in> set js. k < length (velocity st1)"
    using Cons.prems(2) by (simp add: st1_def)
  have d: "distinct js" and nj: "j \<notin> set js" using Cons.prems(3) by simp_all
  from Cons.IH [OF r in1 d] have
    l: "length (velocity st') = length (velocity st1)"
    and v: "\<forall>k < length (velocity st1). velocity st' ! k
           = (if k \<in> set js then multiplyScalar (velocity st1 ! k) rollFric else velocity st1 ! k)"
    by simp_all
  have l1: "length (velocity st1) = length (velocity st)" by (simp add: st1_def)
  have "velocity st' ! k
           = (if k \<in> set (j # js) then multiplyScalar (velocity st ! k) rollFric else velocity st ! k)"
    if k: "k < length (velocity st)" for k
  proof (cases "k = j")
    case True
    then have "velocity st' ! k = velocity st1 ! j" using v k l1 nj by simp
    then show ?thesis using True j by (simp add: st1_def w_def)
  next
    case False
    then have "velocity st1 ! k = velocity st ! k" by (simp add: st1_def)
    then show ?thesis using v k l1 False by simp
  qed
  then show ?case using l l1 by simp
qed

lemma secondCheck_scales:
  assumes "wellFormed st"
  shows "\<exists>st'. secondCheck st = Some st'
     \<and> (if currentSecond st \<noteq> previousSec st
         then velocity st' = map (\<lambda>v. multiplyScalar v rollFric) (velocity st)
           \<and> (\<forall>i < nrOfBalls defaultSettings. decays i st' = decays i st + 1)
         else st' = st)"
proof (cases "currentSecond st \<noteq> previousSec st")
  case False
  then show ?thesis by (simp add: secondCheck_def)
next
  case True
  have lv: "length (velocity st) = 8" using assms by (simp add: wellFormed_def)
  have in8: "\<forall>j \<in> set [0..<8]. j < length (velocity st)" using lv by simp
  from friction_loop_effect [OF in8] obtain vs where
    r: "friction_loop [0..<8] st = Some (st\<lparr>velocity := vs, trace := trace st @ map Friction [0..<8]\<rparr>)"
    by blast
  from friction_loop_velocity [OF r in8] have
    l: "length vs = 8"
    and v: "\<forall>k < 8. vs ! k = multiplyScalar (velocity st ! k) rollFric"
    by (simp_all add: lv)
  have vs: "vs = map (\<lambda>v. multiplyScalar v rollFric) (velocity st)"
    by (rule nth_equalityI) (simp_all add: l lv v)
  have s: "secondCheck st = Some (st\<lparr>velocity := vs, previousSec := currentSecond st,
      trace := trace st @ map Friction [0..<8]\<rparr>)"
    using True by (simp add: secondCheck_def r)
  have "\<forall>i < nrOfBalls defaultSettings.
      decays i (st\<lparr>velocity := vs, previousSec := currentSecond st,
        trace := trace st @ map Friction [0..<8]\<rparr>) = decays i st + 1"
    by (simp add: decays_def count_Friction_tick)
  then show ?thesis using True s vs by simp
qed

lemma render_loop_pairs:
  assumes "render_loop dt ks st = Some st'" "wellFormed st" "\<not> 0.15 < dt"
    and "sorted_wrt (<) ks" "\<forall>i \<in> set ks. i < 8"
  shows "(\<forall>k. k \<notin> set ks \<longrightarrow> balls st' ! k = balls st ! k)
     \<and> (\<forall>a b. resolutions a b st' = resolutions a b st
           + (if a \<in> set ks \<and> b \<noteq> a \<and> b < 8
                 \<and> distanceTo (position (balls st ! a))
                      (position (balls (if b \<in> set ks \<and> b < a then st' else st) ! b)) < 2 / 5
              then 1 else 0))"
  using assms
proof (induction ks arbitrary: st)
  case Nil
  then show ?case by simp
next
  case (Cons i ks)
  let ?P = "\<lambda>s a b. distanceTo (position (balls s ! a)) (position (balls s ! b)) < 2 / 5"
  let ?C = "map (Collision i) (filter (\<lambda>j. j \<noteq> i \<and> ?P st i j) [0..<8])"
  let ?F = "if currentSecond st \<noteq> previousSec st then map Friction [0..<8] else []"
  have i: "i < 8" using Cons.prems(5) by simp
  obtain vs p m where
    bs: "ballStep dt i st = Some (st\<lparr>balls := (balls st)[i := \<lparr>position = p, matrix = m\<rparr>],
           velocity := vs, previousSec := currentSecond st, trace := trace st @ ?C @ ?F\<rparr>)"
    and l: "length vs = 8"
    using ballStep_effect [OF Cons.prems(2) i, of dt] by blast
  define st1 where "st1 = st\<lparr>balls := (balls st)[i := \<lparr>position = p, matrix = m\<rparr>],
           velocity := vs, previousSec := currentSecond st, trace := trace st @ ?C @ ?F\<rparr>"
  have wf1: "wellFormed st1"
    unfolding st1_def by (rule wellFormed_ballStep_result [OF Cons.prems(2) l])
  have b1: "balls st1 ! k = balls st ! k" if "k \<noteq> i" for k
    using that by (simp add: st1_def)
  have r1: "resolutions a b st1 = resolutions a b st
      + (if a = i \<and> b \<noteq> i \<and> b < 8 \<and> ?P st i b then 1 else 0)" for a b
    by (simp add: st1_def resolutions_def count_Collision_turn)
  have R: "render_loop dt ks st1 = Some st'"
    using Cons.prems(1)
    by (simp only: render_loop.simps Cons.prems(3) if_False bs st1_def [symmetric]
        bind.bind_lunit)
  have s: "sorted_wrt (<) ks" and gt: "\<forall>k \<in> set ks. i < k" and ni: "i \<notin> set ks"
    using Cons.prems(4) by auto
  have ks: "\<forall>k \<in> set ks. k < 8" using Cons.prems(5) by simp
  from Cons.IH [OF R wf1 Cons.prems(3) s ks] have
    fr: "\<forall>k. k \<notin> set ks \<longrightarrow> balls st' ! k = balls st1 ! k"
    and rs: "\<forall>a b. resolutions a b st' = resolutions a b st1
           + (if a \<in> set ks \<and> b \<noteq> a \<and> b < 8
                 \<and> distanceTo (position (balls st1 ! a))
                      (position (balls (if b \<in> set ks \<and> b < a then st' else st1) ! b)) < 2 / 5
              then 1 else 0)"
    by simp_all
  have A: "\<forall>k. k \<notin> set (i # ks) \<longrightarrow> balls st' ! k = balls st ! k"
    using fr b1 by simp
  have B: "resolutions a b st' = resolutions a b st
           + (if a \<in> set (i # ks) \<and> b \<noteq> a \<and> b < 8
                 \<and> distanceTo (position (balls st ! a))
                      (position (balls (if b \<in> set (i # ks) \<and> b < a then st' else st) ! b)) < 2 / 5
              then 1 else 0)" for a b
  proof (cases "a = i")
    case True
    have sel: "(if b \<in> set (i # ks) \<and> b < i then st' else st) = st"
      using gt by auto
    have e: "resolutions i b st' = resolutions i b st1"
      using rs [rule_format, of i b] ni by (simp del: distanceTo_near)
    show ?thesis
      unfolding True by (simp only: sel) (simp add: e r1 del: distanceTo_near)
  next
    case False
    have r0: "resolutions a b st1 = resolutions a b st"
      using False by (simp add: r1 del: distanceTo_near)
    show ?thesis
    proof (cases "a \<in> set ks")
      case False
      then have "resolutions a b st' = resolutions a b st1"
        using rs [rule_format, of a b] by (simp del: distanceTo_near)
      then show ?thesis using False \<open>a \<noteq> i\<close> by (simp add: r0 del: distanceTo_near)
    next
      case True
      then have ia: "i < a" using gt by simp
      have pa: "balls st1 ! a = balls st ! a" using \<open>a \<noteq> i\<close> by (rule b1)
      have pb: "balls (if b \<in> set ks \<and> b < a then st' else st1) ! b
              = balls (if b \<in> set (i # ks) \<and> b < a then st' else st) ! b"
      proof (cases "b = i")
        case True
        then have "balls st' ! b = balls st1 ! b" using fr ni by simp
        then show ?thesis using True ni ia by simp
      next
        case False
        then show ?thesis by (simp add: b1)
      qed
      have "resolutions a b st' = resolutions a b st
           + (if a \<in> set ks \<and> b \<noteq> a \<and> b < 8
                 \<and> distanceTo (position (balls st ! a))
                      (position (balls (if b \<in> set (i # ks) \<and> b < a then st' else st) ! b)) < 2 / 5
              then 1 else 0)"
        using rs [rule_format, of a b] by (simp only: pa pb r0)
      then show ?thesis using True by (simp del: distanceTo_near)
    qed
  qed
  show ?case using A B by blast
qed

lemma collide_applies:
  assumes "wellFormed s" "ID < nrOfBalls defaultSettings" "i < nrOfBalls defaultSettings"
  shows "\<exists>s'. collide ID i s = Some s'
     \<and> (if i \<noteq> ID \<and> distanceTo (position (balls s ! ID)) (position (balls s ! i))
                       < ballRadius defaultSettings * 2
         then (\<exists>n p. normalize3 (subVectors (position (balls s ! i)) (position (balls s ! ID))) = Some n
                \<and> divide_js (2.0 * (dot (velocity s ! ID) n - dot (velocity s ! i) n))
                     (massOfSphere defaultSettings + massOfSphere defaultSettings) = Some p
                \<and> velocity s' = (velocity s)
                     [ID := subVectors (velocity s ! ID)
                              (multiplyScalar n (p * massOfSphere defaultSettings)),
                      i := addVectors (velocity s ! i)
                              (multiplyScalar n (p * massOfSphere defaultSettings))])
              \<and> resolutions ID i s' = resolutions ID i s + 1
         else s' = s)"
proof -
  have r: "ID < length (balls s)" "i < length (balls s)"
    "ID < length (velocity s)" "i < length (velocity s)"
    using assms by (simp_all add: wellFormed_def)
  show ?thesis
  proof (cases "i \<noteq> ID \<and> distanceTo (position (balls s ! ID)) (position (balls s ! i)) < 2 / 5")
    case False
    then have "collide ID i s = Some s" by (intro collide_far r)
    then show ?thesis using False by (simp del: distanceTo_near)
  next
    case True
    obtain n where n: "normalize3 (subVectors (position (balls s ! i)) (position (balls s ! ID))) = Some n"
      by (simp add: normalize3_Some)
    define p where "p = dot (velocity s ! ID) n - dot (velocity s ! i) n"
    have d: "divide_js (2.0 * (dot (velocity s ! ID) n - dot (velocity s ! i) n))
        (massOfSphere defaultSettings + massOfSphere defaultSettings) = Some p"
      by (simp add: divide_js_def p_def diff_divide_distrib)
    define s' where "s' = s\<lparr>velocity := (velocity s)
            [ID := subVectors (velocity s ! ID) (multiplyScalar n p),
             i := addVectors (velocity s ! i) (multiplyScalar n p)],
          trace := trace s @ [Collision ID i]\<rparr>"
    have c: "collide ID i s = Some s'"
      using collide_near [OF r True [THEN conjunct1] True [THEN conjunct2] n]
      by (simp only: s'_def p_def)
    have v: "velocity s' = (velocity s)
                     [ID := subVectors (velocity s ! ID)
                              (multiplyScalar n (p * massOfSphere defaultSettings)),
                      i := addVectors (velocity s ! i)
                              (multiplyScalar n (p * massOfSphere defaultSettings))]"
      by (simp add: s'_def)
    have t: "resolutions ID i s' = resolutions ID i s + 1"
      by (simp add: s'_def resolutions_def)
    have "\<exists>n p. normalize3 (subVectors (position (balls s ! i)) (position (balls s ! ID))) = Some n
                \<and> divide_js (2.0 * (dot (velocity s ! ID) n - dot (velocity s ! i) n))
                     (massOfSphere defaultSettings + massOfSphere defaultSettings) = Some p
                \<and> velocity s' = (velocity s)
                     [ID := subVectors (velocity s ! ID)
                              (multiplyScalar n (p * massOfSphere defaultSettings)),
                      i := addVectors (velocity s ! i)
                              (multiplyScalar n (p * massOfSphere defaultSettings))]"
      using n d v by blast
    then show ?thesis using True c t by (simp del: distanceTo_near)
  qed
qed

subsection \<open>The collision in double arithmetic\<close>

lemma normalize_fl_Some:
  "normalize_fl v = Some (multiplyScalar_fl v (fl (1 / (if length_fl v = 0 then 1 else length_fl v))))"
  by (simp add: normalize_fl_def divideScalar_fl_def divide_fl_def)

lemma collide_fl_far:
  assumes "ID < length (balls st)" "i < length (balls st)"
    and "\<not> (i \<noteq> ID \<and> distanceTo_fl (position (balls st ! ID)) (position (balls st ! i))
                 < fl (fl (ballRadius defaultSettings) * 2))"
  shows "collide_fl ID i st = Some st"
  using assms by (auto simp: collide_fl_def lookup_def)

lemma collide_fl_near:
  assumes "ID < length (balls st)" "i < length (balls st)"
    and "ID < length (velocity st)" "i < length (velocity st)" "i \<noteq> ID"
    and "distanceTo_fl (position (balls st ! ID)) (position (balls st ! i))
           < fl (fl (ballRadius defaultSettings) * 2)"
    and "normalize_fl (subVectors_fl (position (balls st ! i)) (position (balls st ! ID))) = Some n"
    and "divide_fl (fl (2.0 * fl (dot_fl (velocity st ! ID) n - dot_fl (velocity st ! i) n)))
           (fl (fl (massOfSphere defaultSettings) + fl (massOfSphere defaultSettings))) = Some p"
  shows "collide_fl ID i st = Some
    (st\<lparr>velocity := (velocity st)
            [ID := subVectors_fl (velocity st ! ID)
                     (multiplyScalar_fl n (fl (p * fl (massOfSphere defaultSettings)))),
             i := addVectors_fl (velocity st ! i)
                     (multiplyScalar_fl n (fl (p * fl (massOfSphere defaultSettings))))],
          trace := trace st @ [Collision ID i]\<rparr>)"
  using assms(1-6) unfolding collide_fl_def lookup_def
  by (simp only: assms(7,8) if_True if_False Let_def bind.bind_lunit refl not_False_eq_True)

lemma optimizedP_fl:
  "divide_fl (fl (2.0 * x))
     (fl (fl (massOfSphere defaultSettings) + fl (massOfSphere defaultSettings))) = Some (fl (fl (2 * x) / 2))"
  by (simp add: divide_fl_def fl_values)

lemma dot_fl_minus: "dot_fl (multiplyScalar v (- 1)) n = - dot_fl v n"
proof -
  have e: "- p - q = - (p + q)" for p q :: real by simp
  show ?thesis
    by (simp add: dot_fl_def multiplyScalar_def fl_minus) (simp only: e fl_minus)
qed

lemma head_on_fl:
  assumes "ID < length (balls st)" "i < length (balls st)"
    and "ID < length (velocity st)" "i < length (velocity st)" "i \<noteq> ID"
    and "position (balls st ! i) \<noteq> position (balls st ! ID)"
    and "distanceTo_fl (position (balls st ! ID)) (position (balls st ! i))
           < fl (fl (ballRadius defaultSettings) * 2)"
    and "velocity st ! ID =
           multiplyScalar (subVectors (position (balls st ! i)) (position (balls st ! ID))) s"
    and "velocity st ! i = multiplyScalar (velocity st ! ID) (- 1)"
  shows "\<exists>S. collide_fl ID i st = Some
            (st\<lparr>velocity := (velocity st)[ID := subVectors_fl (velocity st ! ID) S,
                                           i := addVectors_fl (velocity st ! i) S],
                trace := trace st @ [Collision ID i]\<rparr>)
           \<and> rel_err 26 (vx S) (2 * vx (velocity st ! ID))
           \<and> rel_err 26 (vy S) (2 * vy (velocity st ! ID))
           \<and> rel_err 26 (vz S) (2 * vz (velocity st ! ID))"
proof -
  define pA where "pA = position (balls st ! ID)"
  define pB where "pB = position (balls st ! i)"
  define x where "x = vx pB - vx pA"
  define y where "y = vy pB - vy pA"
  define z where "z = vz pB - vz pA"
  define L where "L = length3 (subVectors pB pA)"
  define d where "d = subVectors_fl pB pA"
  define l where "l = length_fl d"
  define n where "n = multiplyScalar_fl d (fl (1 / l))"
  define a where "a = dot_fl (velocity st ! ID) n"
  define S where "S = multiplyScalar_fl n (fl (fl (fl (2 * fl (a - - a)) / 2) * 1))"
  have L0: "L \<noteq> 0" using assms(6) by (simp add: L_def subVectors_length3_0 pA_def pB_def)
  moreover have "0 \<le> L" unfolding L_def by (rule length3_nonneg)
  ultimately have Lpos: "0 < L" by linarith
  have Lsq: "L * L = x * x + y * y + z * z"
    by (simp add: L_def length3_sq subVectors_def x_def y_def z_def)
  have Lrt: "L = sqrt (x * x + y * y + z * z)"
    by (simp add: L_def length3_def subVectors_def x_def y_def z_def)
  have d: "vx d = fl x" "vy d = fl y" "vz d = fl z"
    by (simp_all add: d_def subVectors_fl_def x_def y_def z_def)
  have l6: "rel_err 6 l L"
    unfolding l_def length_fl_def d Lrt
    by (intro rel_err_length rel_err_fl0)
  have l0: "l \<noteq> 0" using rel_err_zero_iff [OF l6] L0 by simp
  have nrm: "normalize_fl (subVectors_fl pB pA) = Some n"
    using l0 by (simp add: normalize_fl_Some n_def d_def l_def)
  have n: "rel_err 9 (vx n) (x * (1 / L))" "rel_err 9 (vy n) (y * (1 / L))"
    "rel_err 9 (vz n) (z * (1 / L))"
    unfolding n_def multiplyScalar_fl_def Vector3.simps d
    by (intro rel_err_normal rel_err_fl0 l6)+
  have v1: "vx (velocity st ! ID) = x * s" "vy (velocity st ! ID) = y * s"
    "vz (velocity st ! ID) = z * s"
    by (simp_all add: assms(8) multiplyScalar_def subVectors_def x_def y_def z_def pA_def pB_def)
  have a12: "rel_err 12 a (s * L)"
    unfolding a_def dot_fl_def v1
    by (rule rel_err_dot [OF n Lpos Lsq])
  have a2: "dot_fl (velocity st ! i) n = - a"
    by (simp only: assms(9) dot_fl_minus a_def)
  have p: "divide_fl (fl (2.0 * fl (dot_fl (velocity st ! ID) n - dot_fl (velocity st ! i) n)))
      (fl (fl (massOfSphere defaultSettings) + fl (massOfSphere defaultSettings)))
      = Some (fl (fl (2 * fl (a - - a)) / 2))"
    by (simp only: optimizedP_fl a2 a_def [symmetric])
  have c: "collide_fl ID i st = Some
    (st\<lparr>velocity := (velocity st)[ID := subVectors_fl (velocity st ! ID) S,
                                   i := addVectors_fl (velocity st ! i) S],
        trace := trace st @ [Collision ID i]\<rparr>)"
    using collide_fl_near [OF assms(1-5) assms(7) nrm [unfolded pA_def pB_def] p]
    by (simp add: S_def fl_values)
  have S: "rel_err 26 (vx S) (2 * (x * s))" "rel_err 26 (vy S) (2 * (y * s))"
    "rel_err 26 (vz S) (2 * (z * s))"
    unfolding S_def multiplyScalar_fl_def Vector3.simps
    by (intro rel_err_impulse [OF a12 _ Lpos] n)+
  show ?thesis using c S by (intro exI [of _ S]) (simp only: v1 simp_thms)
qed

lemma diag_positions:
  "lookup (balls diagonalState) 0 = Some (ballAt 0 0)"
  "lookup (balls diagonalState) (Suc 0) = Some (ballAt (1 / 4) (1 / 4))"
  "lookup (balls restingTargetState) 0 = Some (ballAt 0 0)"
  "lookup (balls restingTargetState) (Suc 0) = Some (ballAt (1 / 4) (1 / 4))"
  by (simp_all add: diagonalState_def restingTargetState_def sampleState_def lookup_def)

lemma diag_velocities:
  "lookup (velocity diagonalState) 0 = Some (planar 1 1)"
  "lookup (velocity diagonalState) (Suc 0) = Some (planar (- 1) (- 1))"
  "lookup (velocity restingTargetState) 0 = Some (planar 2 (- (1 / 2)))"
  "lookup (velocity restingTargetState) (Suc 0) = Some (planar 0 0)"
  by (simp_all add: diagonalState_def restingTargetState_def sampleState_def lookup_def)

lemma diag_lists:
  "balls diagonalState ! 0 = ballAt 0 0" "balls diagonalState ! Suc 0 = ballAt (1 / 4) (1 / 4)"
  "balls restingTargetState ! 0 = ballAt 0 0"
  "balls restingTargetState ! Suc 0 = ballAt (1 / 4) (1 / 4)"
  "length (balls diagonalState) = 8" "length (velocity diagonalState) = 8"
  "length (balls restingTargetState) = 8" "length (velocity restingTargetState) = 8"
  "velocity diagonalState ! 0 = planar 1 1" "velocity diagonalState ! Suc 0 = planar (- 1) (- 1)"
  "velocity restingTargetState ! 0 = planar 2 (- (1 / 2))"
  "velocity restingTargetState ! Suc 0 = planar 0 0"
  by (simp_all add: diagonalState_def restingTargetState_def sampleState_def)

lemma diag_distance:
  "distanceTo_fl (position (ballAt 0 0)) (position (ballAt (1 / 4) (1 / 4)))
     = 6369051672525773 / 18014398509481984"
  by (simp add: distanceTo_fl_def ballAt_def Let_def fl_minus fl_values fl_sqrt_eighth)

lemma diag_overlap:
  "distanceTo_fl (position (ballAt 0 0)) (position (ballAt (1 / 4) (1 / 4)))
     < fl (fl (ballRadius defaultSettings) * 2)"
  by (simp add: diag_distance fl_two_radii)

lemma diag_normal:
  "normalize_fl (subVectors_fl (position (ballAt (1 / 4) (1 / 4))) (position (ballAt 0 0)))
     = Some (planar (1592262918131443 / 2251799813685248) (1592262918131443 / 2251799813685248))"
  by (simp add: normalize_fl_def divideScalar_fl_def divide_fl_def multiplyScalar_fl_def
      length_fl_def subVectors_fl_def ballAt_def planar_def fl_values fl_sqrt_eighth fl_recip
      fl_exact_values)

lemma collide_fl_diagonal:
  "map_option velocity (collide_fl 0 1 diagonalState)
     = Some [planar (- (2251799813685247 / 2251799813685248)) (- (2251799813685247 / 2251799813685248)),
             planar (2251799813685247 / 2251799813685248) (2251799813685247 / 2251799813685248),
             planar 0 0, planar 0 0, planar 0 0, planar 0 0, planar 0 0, planar 0 0]"
  apply (simp add: collide_fl_def diag_positions diag_velocities diag_distance diag_normal fl_two_radii)
  apply (simp add: dot_fl_def planar_def fl_minus fl_values fl_exact_values divide_fl_def Let_def
      multiplyScalar_fl_def subVectors_fl_def addVectors_fl_def fl_impulse_diagonal)
  apply (simp add: diagonalState_def sampleState_def planar_def)
  done

lemma collide_fl_resting:
  "map_option velocity (collide_fl 0 1 restingTargetState)
     = Some [planar (5 / 4) (- (5 / 4)),
             planar (6755399441055743 / 9007199254740992) (6755399441055743 / 9007199254740992),
             planar 0 0, planar 0 0, planar 0 0, planar 0 0, planar 0 0, planar 0 0]"
  apply (simp add: collide_fl_def diag_positions diag_velocities diag_distance diag_normal fl_two_radii)
  apply (simp add: dot_fl_def planar_def fl_minus fl_values fl_exact_values divide_fl_def Let_def
      multiplyScalar_fl_def subVectors_fl_def addVectors_fl_def fl_impulse_resting fl_tie_x fl_tie_y)
  apply (simp add: restingTargetState_def diagonalState_def sampleState_def planar_def)
  done

section \<open>The claims\<close>

subsection \<open>Pairs of balls in one frame\<close>




subsection \<open>The cushions and the position\<close>

text \<open>
  C2, as stated, fails: ball 7 of \<open>cushionState\<close> is inside the cushions, and after one
  frame with \<open>dt = 0.1\<close> its \<open>position.x\<close> is 4.9, beyond \<open>halfWidth = 4.8\<close>.
\<close>

theorem position_leaves_table_counterexample:
  "ballPosition 7 cushionState = Some \<lparr>vx = 47 / 10, vy = 0, vz = 9 / 20\<rparr>
   \<and> \<bar>47 / 10\<bar> \<le> tableSize defaultSettings / 2 - ballRadius defaultSettings
   \<and> render (1 / 10) cushionState \<bind> ballPosition 7
       = Some \<lparr>vx = 49 / 10, vy = 0, vz = 9 / 20\<rparr>
   \<and> \<not> \<bar>49 / 10\<bar> \<le> tableSize defaultSettings / 2 - ballRadius defaultSettings"
  apply (simp add: render_def tick_cushion upt8)
  apply (simp add: cushionState_def ballStep_def collisionVel_def upt8 collide_def ballAt_def planar_def
     integrate_def boundary_def secondCheck_def normalize3_Some divide_js_def cross_def
     multiplyScalar_def addVectors_def subVectors_def onVelocity_def ballPosition_def
    makeRotationAxis_def setPosition_def Let_def rollFric_def)
  done

text \<open>
  C2, amended. The cushion code does not correct positions. It leaves the position of
  every ball as the integrator set it, and where the position is beyond a cushion it
  points the velocity component of that axis inward.
\<close>

theorem boundary_turns_velocity_inward:
  assumes "i < length (balls st)" "i < length (velocity st)"
  shows "\<exists>st'. boundary i st = Some st' \<and> balls st' = balls st
     \<and> (tableSize defaultSettings / 2 - ballRadius defaultSettings < vx (position (balls st ! i))
          \<longrightarrow> vx (velocity st' ! i) \<le> 0)
     \<and> (vx (position (balls st ! i)) < - (tableSize defaultSettings / 2 - ballRadius defaultSettings)
          \<longrightarrow> 0 \<le> vx (velocity st' ! i))
     \<and> (tableSize defaultSettings / 4 - ballRadius defaultSettings < vy (position (balls st ! i))
          \<longrightarrow> vy (velocity st' ! i) \<le> 0)
     \<and> (vy (position (balls st ! i)) < - (tableSize defaultSettings / 4 - ballRadius defaultSettings)
          \<longrightarrow> 0 \<le> vy (velocity st' ! i))"
proof -
  obtain w where w: "boundary i st = Some (st\<lparr>velocity := (velocity st)[i := w]\<rparr>)"
    "24 / 5 < vx (position (balls st ! i)) \<longrightarrow> vx w \<le> 0"
    "vx (position (balls st ! i)) < - (24 / 5) \<longrightarrow> 0 \<le> vx w"
    "23 / 10 < vy (position (balls st ! i)) \<longrightarrow> vy w \<le> 0"
    "vy (position (balls st ! i)) < - (23 / 10) \<longrightarrow> 0 \<le> vy w"
    using boundary_effect [OF assms] by blast
  show ?thesis
    unfolding halfWidth_default halfHeight_default
    using w assms by simp
qed

theorem boundary_turns_velocity_inward_witness:
  "\<exists>st'. boundary 7 cornerState = Some st' \<and> balls st' = balls cornerState
     \<and> vx (velocity st' ! 7) \<le> 0 \<and> vy (velocity st' ! 7) \<le> 0"
  using boundary_turns_velocity_inward [of 7 cornerState]
  by (simp add: corner_ball)

subsection \<open>Head-on collision\<close>




subsection \<open>Friction once per second\<close>




subsection \<open>A frame with a large time step\<close>

text \<open>
  C5. A frame whose \<open>dt\<close> exceeds 0.15 leaves every ball's position, matrix and velocity
  as they were: no collision update and no friction decay is applied (the trace is
  unchanged), nothing is integrated and nothing reflected. Only the clock of lines 228 and
  229 advances.
\<close>

theorem large_dt_skips_physics:
  assumes "0.15 < dt"
  shows "\<exists>st'. render dt st = Some st' \<and> balls st' = balls st \<and> velocity st' = velocity st
           \<and> trace st' = trace st \<and> previousSec st' = previousSec st"
  using assms by (simp add: render_def render_loop_large tick_def Let_def)

theorem large_dt_skips_physics_witness:
  "\<exists>st'. render 1 sampleState = Some st' \<and> balls st' = balls sampleState
      \<and> velocity st' = velocity sampleState \<and> trace st' = trace sampleState
      \<and> previousSec st' = previousSec sampleState"
  using large_dt_skips_physics [of 1 sampleState] by simp

subsection \<open>Coincident centres\<close>

text \<open>
  C6. For two balls whose centres coincide, the loop body of \<open>collisionVel\<close> divides by no
  zero and raises no error (it returns \<open>Some\<close>), and it leaves every velocity as it was:
  the normal is the zero vector, and so is the impulse.
\<close>

theorem coincident_centres_safe:
  assumes "ID < length (balls st)" "i < length (balls st)"
    and "ID < length (velocity st)" "i < length (velocity st)"
    and "position (balls st ! i) = position (balls st ! ID)"
  shows "\<exists>st'. collide ID i st = Some st' \<and> velocity st' = velocity st"
proof (cases "i = ID")
  case True
  then show ?thesis by (simp add: collide_def)
next
  case False
  have z: "subVectors (position (balls st ! i)) (position (balls st ! ID)) = \<lparr>vx = 0, vy = 0, vz = 0\<rparr>"
    by (simp add: assms(5) subVectors_def)
  have d: "distanceTo (position (balls st ! ID)) (position (balls st ! i)) < 2 / 5"
    by (simp add: assms(5) distanceTo_def)
  have n: "normalize3 (subVectors (position (balls st ! i)) (position (balls st ! ID)))
             = Some \<lparr>vx = 0, vy = 0, vz = 0\<rparr>"
    by (simp only: z normalize3_zero)
  show ?thesis
    using assms(1-4) False
    by (simp add: collide_near [OF assms(1-4) False d n] multiplyScalar_def subVectors_def
        addVectors_def)
qed

theorem coincident_centres_safe_witness:
  "\<exists>st'. collide 0 1 coincidentState = Some st' \<and> velocity st' = velocity coincidentState"
  using coincident_centres_safe [of 0 coincidentState 1]
  by (simp add: coincidentState_def sampleState_def)

subsection \<open>A ball at rest\<close>

text \<open>
  C7. When the velocity of a ball is the zero vector, the rotation axis computed by the
  integrator is a defined vector (the zero vector), no division by zero occurs, and the
  rotation applied to the matrix of the mesh is the identity: the matrix is left as it
  was but for its translation, which \<open>setPosition\<close> sets to the (unchanged) position.
\<close>

theorem zero_velocity_keeps_orientation:
  assumes "i < length (balls st)" "i < length (velocity st)"
    and "velocity st ! i = \<lparr>vx = 0, vy = 0, vz = 0\<rparr>"
  shows "\<exists>st'. integrate dt i st = Some st'
           \<and> normalize3 (cross \<lparr>vx = 0, vy = 0, vz = 1\<rparr> (velocity st ! i))
               = Some \<lparr>vx = 0, vy = 0, vz = 0\<rparr>
           \<and> position (balls st' ! i) = position (balls st ! i)
           \<and> matrix (balls st' ! i)
               = setPosition (matrix (balls st ! i)) (position (balls st ! i))"
proof -
  have c: "cross \<lparr>vx = 0, vy = 0, vz = 1\<rparr> (velocity st ! i) = \<lparr>vx = 0, vy = 0, vz = 0\<rparr>"
    by (simp add: assms(3) cross_def)
  have p: "addVectors (position (balls st ! i)) (multiplyScalar (velocity st ! i) dt)
             = position (balls st ! i)"
    by (simp add: assms(3) addVectors_def multiplyScalar_def)
  have l: "length3 (velocity st ! i) = 0"
    by (simp add: assms(3))
  show ?thesis
    using assms(1,2)
    by (simp add: integrate_def c normalize3_zero p l divide_js_def Let_def
        makeRotationAxis_0 multiply_identity4)
qed

theorem zero_velocity_keeps_orientation_witness:
  "\<exists>st'. integrate (1 / 60) 2 sampleState = Some st'
     \<and> normalize3 (cross \<lparr>vx = 0, vy = 0, vz = 1\<rparr> (velocity sampleState ! 2))
         = Some \<lparr>vx = 0, vy = 0, vz = 0\<rparr>
     \<and> position (balls st' ! 2) = position (balls sampleState ! 2)
     \<and> matrix (balls st' ! 2)
         = setPosition (matrix (balls sampleState ! 2)) (position (balls sampleState ! 2))"
  using zero_velocity_keeps_orientation [of 2 sampleState "1 / 60"]
  by (simp add: sampleState_def planar_def)

subsection \<open>The cushions and the speed\<close>

text \<open>
  C8. Whatever combination of the checks on \<open>x\<close> and \<open>y\<close> fires, the Euclidean norm of the
  ball's velocity after the cushion code is at most its norm before.
\<close>

theorem boundary_never_speeds_up:
  assumes "i < length (balls st)" "i < length (velocity st)"
  shows "\<exists>st'. boundary i st = Some st' \<and>
           length3 (velocity st' ! i) \<le> length3 (velocity st ! i)"
proof -
  obtain w where "boundary i st = Some (st\<lparr>velocity := (velocity st)[i := w]\<rparr>)"
    and "length3 w \<le> length3 (velocity st ! i)"
    using boundary_effect [OF assms] by blast
  then show ?thesis using assms by simp
qed

theorem boundary_never_speeds_up_witness:
  "\<exists>st'. boundary 7 cornerState = Some st'
     \<and> length3 (velocity st' ! 7) \<le> length3 \<lparr>vx = 2, vy = 1, vz = 0\<rparr>"
  using boundary_never_speeds_up [of 7 cornerState]
  by (simp add: corner_ball)

subsection \<open>The resting plane\<close>

text \<open>
  C9. From a state with every ball on the resting plane and every velocity in the plane,
  as \<open>createBilliardBalls\<close> leaves it, every run of frames and key presses (among them
  the speed boost) returns, and keeps \<open>position.z\<close> of every ball at its initial value.
\<close>

theorem position_z_constant:
  assumes "wellFormed st" "onPlane st"
  shows "\<exists>st'. run xs st = Some st'
     \<and> (\<forall>i < nrOfBalls defaultSettings.
           vz (position (balls st' ! i)) = vz (position (balls st ! i))
         \<and> vz (position (balls st' ! i)) = tableWidth defaultSettings - 0.05)"
proof -
  from run_effect [OF assms(1)] assms(2) obtain st' where
    r: "run xs st = Some st'" and w: "wellFormed st'" and o: "onPlane st'"
    by blast
  have "vz (position (balls st' ! i)) = vz (position (balls st ! i))
         \<and> vz (position (balls st' ! i)) = tableWidth defaultSettings - 0.05"
    if "i < nrOfBalls defaultSettings" for i
    using that w assms onPlane_position [OF o, of i] onPlane_position [OF assms(2), of i]
    by (simp add: wellFormed_def)
  then show ?thesis using r by blast
qed

theorem position_z_constant_witness:
  "\<exists>st'. run [Frame (1 / 100), KeyDown 83 (\<lambda>i. 1 / 100), Frame (1 / 60), Frame 1] sampleState = Some st'
     \<and> vz (position (balls st' ! 0)) = vz (position (balls sampleState ! 0))
     \<and> vz (position (balls st' ! 0)) = tableWidth defaultSettings - 0.05"
proof -
  let ?xs = "[Frame (1 / 100), KeyDown 83 (\<lambda>i. 1 / 100), Frame (1 / 60), Frame 1]"
  from position_z_constant [OF wellFormed_sample onPlane_sample, of ?xs] obtain st' where
    r: "run ?xs sampleState = Some st'"
    and z: "\<forall>i < nrOfBalls defaultSettings.
           vz (position (balls st' ! i)) = vz (position (balls sampleState ! i))
         \<and> vz (position (balls st' ! i)) = tableWidth defaultSettings - 0.05"
    by blast
  have "(0::nat) < nrOfBalls defaultSettings" by simp
  with z have "vz (position (balls st' ! 0)) = vz (position (balls sampleState ! 0))
         \<and> vz (position (balls st' ! 0)) = tableWidth defaultSettings - 0.05"
    by blast
  with r show ?thesis by blast
qed

subsection \<open>Momentum of a pair\<close>

text \<open>
  C10, as stated, fails: on \<open>restingTargetState\<close> ball 0 arrives with velocity
  \<open>(2, -1/2, 0)\<close> and ball 1 is at rest. The resolver writes \<open>(1.25, -1.25, 0)\<close> and
  \<open>(0.7499999999999999, 0.7499999999999999, 0)\<close> (\<open>6755399441055743 / 2^53\<close>), whose sum is
  \<open>(2 - 2^-53, -1/2 - 2^-53, 0)\<close>: the same vector \<open>scalarN\<close> is subtracted from one
  velocity and added to the other, but each of the two results is rounded on its own.
\<close>

theorem momentum_rounding_counterexample:
  "velocity restingTargetState
     = [planar 2 (- (1 / 2)), planar 0 0,
        planar 0 0, planar 0 0, planar 0 0, planar 0 0, planar 0 0, planar 0 0]
   \<and> map_option velocity (collide_fl 0 1 restingTargetState)
     = Some [planar (5 / 4) (- (5 / 4)),
             planar (6755399441055743 / 9007199254740992) (6755399441055743 / 9007199254740992),
             planar 0 0, planar 0 0, planar 0 0, planar 0 0, planar 0 0, planar 0 0]
   \<and> pairSum 0 1 restingTargetState = planar 2 (- (1 / 2))
   \<and> map_option (pairSum 0 1) (collide_fl 0 1 restingTargetState)
     = Some (planar (18014398509481983 / 9007199254740992) (- (4503599627370497 / 9007199254740992)))"
proof -
  obtain st' where c: "collide_fl 0 1 restingTargetState = Some st'"
    and v: "velocity st' = [planar (5 / 4) (- (5 / 4)),
             planar (6755399441055743 / 9007199254740992) (6755399441055743 / 9007199254740992),
             planar 0 0, planar 0 0, planar 0 0, planar 0 0, planar 0 0, planar 0 0]"
    using collide_fl_resting by (auto simp: map_option_case split: option.splits)
  have 1: "velocity restingTargetState
     = [planar 2 (- (1 / 2)), planar 0 0,
        planar 0 0, planar 0 0, planar 0 0, planar 0 0, planar 0 0, planar 0 0]"
    by (simp add: restingTargetState_def sampleState_def)
  have 2: "pairSum 0 1 restingTargetState = planar 2 (- (1 / 2))"
    by (simp add: pairSum_def 1 planar_def addVectors_def)
  have 3: "pairSum 0 1 st'
      = planar (18014398509481983 / 9007199254740992) (- (4503599627370497 / 9007199254740992))"
    by (simp add: pairSum_def v planar_def addVectors_def)
  show ?thesis by (simp only: c v 1 2 3 option.map simp_thms)
qed

text \<open>
  C10, amended. One pair resolution writes \<open>fl (v1 - scalarN)\<close> and \<open>fl (v2 + scalarN)\<close>
  for one and the same vector \<open>scalarN\<close>, so each component of the sum of the two
  velocities changes by at most \<open>2^-53\<close> times the sum of the magnitudes of the two new
  components. A pair that is not resolved keeps its velocities.
\<close>

theorem collide_fl_momentum:
  assumes "ID < length (balls st)" "i < length (balls st)"
    and "ID < length (velocity st)" "i < length (velocity st)"
  shows "\<exists>st'. collide_fl ID i st = Some st'
     \<and> \<bar>vx (pairSum ID i st') - vx (pairSum ID i st)\<bar>
         \<le> (\<bar>vx (velocity st' ! ID)\<bar> + \<bar>vx (velocity st' ! i)\<bar>) / 2 ^ 53
     \<and> \<bar>vy (pairSum ID i st') - vy (pairSum ID i st)\<bar>
         \<le> (\<bar>vy (velocity st' ! ID)\<bar> + \<bar>vy (velocity st' ! i)\<bar>) / 2 ^ 53
     \<and> \<bar>vz (pairSum ID i st') - vz (pairSum ID i st)\<bar>
         \<le> (\<bar>vz (velocity st' ! ID)\<bar> + \<bar>vz (velocity st' ! i)\<bar>) / 2 ^ 53
     \<and> (if i \<noteq> ID \<and> distanceTo_fl (position (balls st ! ID)) (position (balls st ! i))
                        < fl (fl (ballRadius defaultSettings) * 2)
        then \<exists>n p. normalize_fl (subVectors_fl (position (balls st ! i)) (position (balls st ! ID)))
                      = Some n
               \<and> divide_fl (fl (2.0 * fl (dot_fl (velocity st ! ID) n - dot_fl (velocity st ! i) n)))
                    (fl (fl (massOfSphere defaultSettings) + fl (massOfSphere defaultSettings)))
                      = Some p
               \<and> velocity st' = (velocity st)
                    [ID := subVectors_fl (velocity st ! ID)
                             (multiplyScalar_fl n (fl (p * fl (massOfSphere defaultSettings)))),
                     i := addVectors_fl (velocity st ! i)
                             (multiplyScalar_fl n (fl (p * fl (massOfSphere defaultSettings))))]
        else st' = st)"
proof (cases "i \<noteq> ID \<and> distanceTo_fl (position (balls st ! ID)) (position (balls st ! i))
                        < fl (fl (ballRadius defaultSettings) * 2)")
  case False
  have c: "collide_fl ID i st = Some st" using assms(1,2) False by (rule collide_fl_far)
  show ?thesis
  proof (intro exI [of _ st] conjI)
    show "collide_fl ID i st = Some st" by (rule c)
  qed (simp_all only: False if_False diff_self abs_zero, simp_all)
next
  case True
  define n where "n = multiplyScalar_fl (subVectors_fl (position (balls st ! i)) (position (balls st ! ID)))
      (fl (1 / (if length_fl (subVectors_fl (position (balls st ! i)) (position (balls st ! ID))) = 0
                then 1
                else length_fl (subVectors_fl (position (balls st ! i)) (position (balls st ! ID))))))"
  define p where "p = fl (fl (2 * fl (dot_fl (velocity st ! ID) n - dot_fl (velocity st ! i) n)) / 2)"
  define S where "S = multiplyScalar_fl n (fl (p * fl (massOfSphere defaultSettings)))"
  define st' where "st' = st\<lparr>velocity := (velocity st)[ID := subVectors_fl (velocity st ! ID) S,
                                           i := addVectors_fl (velocity st ! i) S],
                trace := trace st @ [Collision ID i]\<rparr>"
  have nrm: "normalize_fl (subVectors_fl (position (balls st ! i)) (position (balls st ! ID))) = Some n"
    by (simp only: normalize_fl_Some n_def)
  have pp: "divide_fl (fl (2.0 * fl (dot_fl (velocity st ! ID) n - dot_fl (velocity st ! i) n)))
      (fl (fl (massOfSphere defaultSettings) + fl (massOfSphere defaultSettings))) = Some p"
    by (simp only: optimizedP_fl p_def)
  have c: "collide_fl ID i st = Some st'"
    using collide_fl_near [OF assms True [THEN conjunct1] True [THEN conjunct2] nrm pp]
    by (simp only: st'_def S_def)
  have 1: "velocity st' ! ID = subVectors_fl (velocity st ! ID) S"
    using assms(3) True by (simp add: st'_def)
  have 2: "velocity st' ! i = addVectors_fl (velocity st ! i) S"
    using assms(4) by (simp add: st'_def)
  have vs: "velocity st' = (velocity st)[ID := subVectors_fl (velocity st ! ID) S,
                                           i := addVectors_fl (velocity st ! i) S]"
    by (simp add: st'_def)
  show ?thesis
  proof (intro exI [of _ st'] conjI)
    show "collide_fl ID i st = Some st'" by (rule c)
    show "\<bar>vx (pairSum ID i st') - vx (pairSum ID i st)\<bar>
         \<le> (\<bar>vx (velocity st' ! ID)\<bar> + \<bar>vx (velocity st' ! i)\<bar>) / 2 ^ 53"
      using fl_pair_drift [of "vx (velocity st ! ID)" "vx S" "vx (velocity st ! i)"]
      by (simp add: pairSum_def 1 2 addVectors_def subVectors_fl_def addVectors_fl_def)
    show "\<bar>vy (pairSum ID i st') - vy (pairSum ID i st)\<bar>
         \<le> (\<bar>vy (velocity st' ! ID)\<bar> + \<bar>vy (velocity st' ! i)\<bar>) / 2 ^ 53"
      using fl_pair_drift [of "vy (velocity st ! ID)" "vy S" "vy (velocity st ! i)"]
      by (simp add: pairSum_def 1 2 addVectors_def subVectors_fl_def addVectors_fl_def)
    show "\<bar>vz (pairSum ID i st') - vz (pairSum ID i st)\<bar>
         \<le> (\<bar>vz (velocity st' ! ID)\<bar> + \<bar>vz (velocity st' ! i)\<bar>) / 2 ^ 53"
      using fl_pair_drift [of "vz (velocity st ! ID)" "vz S" "vz (velocity st ! i)"]
      by (simp add: pairSum_def 1 2 addVectors_def subVectors_fl_def addVectors_fl_def)
    have "\<exists>n p. normalize_fl (subVectors_fl (position (balls st ! i)) (position (balls st ! ID)))
                      = Some n
               \<and> divide_fl (fl (2.0 * fl (dot_fl (velocity st ! ID) n - dot_fl (velocity st ! i) n)))
                    (fl (fl (massOfSphere defaultSettings) + fl (massOfSphere defaultSettings)))
                      = Some p
               \<and> velocity st' = (velocity st)
                    [ID := subVectors_fl (velocity st ! ID)
                             (multiplyScalar_fl n (fl (p * fl (massOfSphere defaultSettings)))),
                     i := addVectors_fl (velocity st ! i)
                             (multiplyScalar_fl n (fl (p * fl (massOfSphere defaultSettings))))]"
      using nrm pp vs unfolding S_def by (intro exI [of _ n] exI [of _ p] conjI)
    then show "if i \<noteq> ID \<and> distanceTo_fl (position (balls st ! ID)) (position (balls st ! i))
                        < fl (fl (ballRadius defaultSettings) * 2)
        then \<exists>n p. normalize_fl (subVectors_fl (position (balls st ! i)) (position (balls st ! ID)))
                      = Some n
               \<and> divide_fl (fl (2.0 * fl (dot_fl (velocity st ! ID) n - dot_fl (velocity st ! i) n)))
                    (fl (fl (massOfSphere defaultSettings) + fl (massOfSphere defaultSettings)))
                      = Some p
               \<and> velocity st' = (velocity st)
                    [ID := subVectors_fl (velocity st ! ID)
                             (multiplyScalar_fl n (fl (p * fl (massOfSphere defaultSettings)))),
                     i := addVectors_fl (velocity st ! i)
                             (multiplyScalar_fl n (fl (p * fl (massOfSphere defaultSettings))))]
        else st' = st"
      using True by (simp only: if_True simp_thms)
  qed
qed

theorem collide_fl_momentum_witness:
  "\<exists>st'. collide_fl 0 1 restingTargetState = Some st'
     \<and> \<bar>vx (pairSum 0 1 st') - vx (pairSum 0 1 restingTargetState)\<bar>
         \<le> (\<bar>vx (velocity st' ! 0)\<bar> + \<bar>vx (velocity st' ! 1)\<bar>) / 2 ^ 53
     \<and> \<bar>vy (pairSum 0 1 st') - vy (pairSum 0 1 restingTargetState)\<bar>
         \<le> (\<bar>vy (velocity st' ! 0)\<bar> + \<bar>vy (velocity st' ! 1)\<bar>) / 2 ^ 53
     \<and> \<bar>vz (pairSum 0 1 st') - vz (pairSum 0 1 restingTargetState)\<bar>
         \<le> (\<bar>vz (velocity st' ! 0)\<bar> + \<bar>vz (velocity st' ! 1)\<bar>) / 2 ^ 53
     \<and> (\<exists>n p. normalize_fl (subVectors_fl (position (balls restingTargetState ! 1))
                                  (position (balls restingTargetState ! 0))) = Some n
            \<and> divide_fl (fl (2.0 * fl (dot_fl (velocity restingTargetState ! 0) n
                                         - dot_fl (velocity restingTargetState ! 1) n)))
                 (fl (fl (massOfSphere defaultSettings) + fl (massOfSphere defaultSettings)))
                   = Some p
            \<and> velocity st' = (velocity restingTargetState)
                 [0 := subVectors_fl (velocity restingTargetState ! 0)
                          (multiplyScalar_fl n (fl (p * fl (massOfSphere defaultSettings)))),
                  1 := addVectors_fl (velocity restingTargetState ! 1)
                          (multiplyScalar_fl n (fl (p * fl (massOfSphere defaultSettings))))])"
proof -
  have l: "0 < length (balls restingTargetState)" "1 < length (balls restingTargetState)"
    "0 < length (velocity restingTargetState)" "1 < length (velocity restingTargetState)"
    by (simp_all add: diag_lists)
  have c: "distanceTo_fl (position (balls restingTargetState ! 0)) (position (balls restingTargetState ! 1))
      < fl (fl (ballRadius defaultSettings) * 2)"
    using diag_overlap by (simp only: diag_lists One_nat_def)
  have n: "(1::nat) \<noteq> 0" by simp
  show ?thesis
    using collide_fl_momentum [OF l] by (simp only: c n if_True simp_thms)
qed

end
